theory Spec2Isabelle
  imports Main "HOL-Library.AList"
begin

section \<open>Values, references and errors\<close>

text \<open>
  Objects of \<^verbatim>\<open>mixed.ts\<close> that the code compares by identity or mutates while
  they may be shared live in an explicit store and are named by their address: the schema
  nodes, the \<^verbatim>\<open>tests\<close> arrays and the \<^verbatim>\<open>_exclusive\<close> tables.
\<close>

type_synonym addr = nat

text \<open>
  Runtime values: those that are cast and validated, and those kept as a default or as
  meta data. Numbers are integers here; \<open>VFn k\<close> is the function object number \<open>k\<close>
  (a default factory). An array and a plain object are given by their entries, the
  object's under its keys in the order in which the keys were set; a deep copy of a value
  has the same entries.
\<close>

datatype jsval =
  Undefined | Null | VBool bool | VNum int | VStr string | VFn nat
  | VArr "jsval list" | VObj "(string \<times> jsval) list"

text \<open>
  Modelled from the spec: \<^verbatim>\<open>Reference\<close> (\<^verbatim>\<open>./Reference\<close> is not part of the
  sources at hand). A reference is a deferred pointer identified by its key;
  \<^verbatim>\<open>Ref.isRef\<close> recognises it.
\<close>

datatype reference = Reference (key: string)

text \<open>
  A value of type \<^verbatim>\<open>unknown\<close> as stored in a \<^verbatim>\<open>RefSet\<close>: a plain value, a
  reference, or a value that is itself a schema node (named by its address).
\<close>

datatype unknown = Val jsval | RefV reference | SchemaV addr

definition isRef :: "unknown \<Rightarrow> bool" where
  "isRef v = (case v of RefV _ \<Rightarrow> True | _ \<Rightarrow> False)"

text \<open>
  Modelled from the spec: \<^verbatim>\<open>isSchema\<close> (\<^verbatim>\<open>./util/isSchema\<close>), the duck-typed
  marker check \<^verbatim>\<open>__isYupSchema__\<close> that tells a nested schema from any other value.
\<close>

definition isSchema :: "unknown \<Rightarrow> bool" where
  "isSchema v = (case v of SchemaV _ \<Rightarrow> True | _ \<Rightarrow> False)"

text \<open>Messages: the entries of the locale table that the code names, or a caller's text.\<close>

datatype message =
  LocaleDefault | LocaleNotType | LocaleOneOf | LocaleNotOneOf | LocaleRequired | Msg string

text \<open>
  Test functions are compared by identity (\<^verbatim>\<open>===\<close>). \<open>UserTest k\<close> is the caller's
  function object number \<open>k\<close>; the other four are the closures that \<^verbatim>\<open>typeError\<close>,
  \<^verbatim>\<open>oneOf\<close>, \<^verbatim>\<open>notOneOf\<close> and \<^verbatim>\<open>required\<close> build.
\<close>

datatype testfn = TypeErrorTest | OneOfTest | NotOneOfTest | RequiredTest | UserTest nat

text \<open>
  Modelled from the spec: \<^verbatim>\<open>TestConfig\<close> and \<^verbatim>\<open>createValidation\<close>
  (\<^verbatim>\<open>./util/createValidation\<close>). A config is
  \<^verbatim>\<open>{name?, message?, params, exclusive?, test}\<close>; the validation built from it keeps
  the config as its \<^verbatim>\<open>OPTIONS\<close>. A missing \<^verbatim>\<open>exclusive\<close> is falsy, hence \<open>False\<close>;
  a \<^verbatim>\<open>test\<close> that is not a function is \<open>None\<close>.
\<close>

record test_config =
  name :: "string option"
  message :: "message option"
  params :: "(string \<times> jsval) list"
  exclusive :: bool
  test_fn :: "testfn option"

datatype validation = Validation (OPTIONS: test_config)

definition createValidation :: "test_config \<Rightarrow> validation" where
  "createValidation opts = Validation opts"

text \<open>Truthiness of an optional string: \<^verbatim>\<open>undefined\<close> and the empty string are falsy.\<close>

definition truthy :: "string option \<Rightarrow> bool" where
  "truthy s = (case s of None \<Rightarrow> False | Some n \<Rightarrow> n \<noteq> [])"

datatype type_error =
  TestRequired
  | ExclusiveNeedsName
  | ConcatDifferentTypes string string
  | CastFailed "string option" string jsval jsval

text \<open>One failed rule of a validation: the test's name and message, and the value.\<close>

record failure =
  f_type :: "string option"
  f_message :: "message option"
  f_value :: jsval

datatype error =
  TypeError type_error
  | ValidationError "failure list"
  | Thrown nat

section \<open>RefSet\<close>

text \<open>
  \<^verbatim>\<open>list\<close> is a JavaScript \<^verbatim>\<open>Set\<close> and \<^verbatim>\<open>refs\<close> a \<^verbatim>\<open>Map\<close>: both keep
  insertion order, so they are a duplicate-free list and an association list.
\<close>

record RefSet =
  rs_list :: "unknown list"
  rs_refs :: "(string \<times> reference) list"

definition RefSet_new :: RefSet where
  "RefSet_new = \<lparr>rs_list = [], rs_refs = []\<rparr>"

definition RefSet_size :: "RefSet \<Rightarrow> nat" where
  "RefSet_size s = length (rs_list s) + length (rs_refs s)"

definition RefSet_toArray :: "RefSet \<Rightarrow> unknown list" where
  "RefSet_toArray s = rs_list s @ map (\<lambda>(k, r). RefV r) (rs_refs s)"

definition set_add :: "unknown \<Rightarrow> unknown list \<Rightarrow> unknown list" where
  "set_add v xs = (if v \<in> set xs then xs else xs @ [v])"

definition set_delete :: "unknown \<Rightarrow> unknown list \<Rightarrow> unknown list" where
  "set_delete v xs = filter (\<lambda>x. x \<noteq> v) xs"

definition RefSet_add :: "unknown \<Rightarrow> RefSet \<Rightarrow> RefSet" where
  "RefSet_add v s =
     (case v of
        RefV r \<Rightarrow> s\<lparr>rs_refs := AList.update (key r) r (rs_refs s)\<rparr>
      | _ \<Rightarrow> s\<lparr>rs_list := set_add v (rs_list s)\<rparr>)"

definition RefSet_delete :: "unknown \<Rightarrow> RefSet \<Rightarrow> RefSet" where
  "RefSet_delete v s =
     (case v of
        RefV r \<Rightarrow> s\<lparr>rs_refs := AList.delete (key r) (rs_refs s)\<rparr>
      | _ \<Rightarrow> s\<lparr>rs_list := set_delete v (rs_list s)\<rparr>)"

text \<open>
  \<^verbatim>\<open>has(value, resolve)\<close>: a literal member, or a stored reference that resolves to
  the value.
\<close>

definition RefSet_has :: "(reference \<Rightarrow> unknown) \<Rightarrow> unknown \<Rightarrow> RefSet \<Rightarrow> bool" where
  "RefSet_has resolve v s =
     (if v \<in> set (rs_list s) then True
      else list_ex (\<lambda>(k, r). resolve r = v) (rs_refs s))"

definition RefSet_clone :: "RefSet \<Rightarrow> RefSet" where
  "RefSet_clone s = \<lparr>rs_list = rs_list s, rs_refs = rs_refs s\<rparr>"

definition RefSet_merge :: "RefSet \<Rightarrow> RefSet \<Rightarrow> RefSet \<Rightarrow> RefSet" where
  "RefSet_merge s newItems removeItems =
     (let next1 = RefSet_clone s;
          next2 = fold RefSet_add (rs_list newItems) next1;
          next3 = fold (\<lambda>(k, r). RefSet_add (RefV r)) (rs_refs newItems) next2;
          next4 = fold RefSet_delete (rs_list removeItems) next3;
          next5 = fold (\<lambda>(k, r). RefSet_delete (RefV r)) (rs_refs removeItems) next4
      in next5)"

section \<open>Schema nodes and the store\<close>

record schema_spec =
  nullable :: bool
  default_val :: jsval
  hasDefault :: bool
  abortEarly :: bool
  strip :: bool
  strict :: bool
  recursive :: bool
  label :: "string option"
  meta :: "unknown option"

text \<open>
  A \<^verbatim>\<open>MixedSchema\<close> object. \<open>s_tests\<close> and \<open>s_exclusive\<close> hold the addresses of
  the \<^verbatim>\<open>tests\<close> array and of the \<^verbatim>\<open>_exclusive\<close> table; the other containers are
  never shared between two nodes and are kept by value. \<open>s_typeCheck\<close> is the method
  \<^verbatim>\<open>_typeCheck\<close> of the node's class (the base class accepts everything, a concrete
  kind overrides it). Transforms and conditions are caller functions, named by number.
\<close>

record schema =
  s_type :: string
  s_typeCheck :: "jsval \<Rightarrow> bool"
  s_deps :: "string list"
  s_exclusive :: addr
  s_whitelist :: RefSet
  s_blacklist :: RefSet
  s_tests :: addr
  s_transforms :: "nat list"
  s_mutate :: bool
  s_label :: "string option"
  s_meta :: "unknown option"
  s_conditions :: "nat list"
  s_typeError :: "validation option"
  s_whitelistError :: "validation option"
  s_blacklistError :: "validation option"
  s_spec :: schema_spec

record heap =
  schemas :: "addr \<Rightarrow> schema"
  arrays :: "addr \<Rightarrow> validation list"
  tables :: "addr \<Rightarrow> (string \<Rightarrow> bool option)"
  nxt :: addr

definition upd_schema :: "addr \<Rightarrow> (schema \<Rightarrow> schema) \<Rightarrow> heap \<Rightarrow> heap" where
  "upd_schema a f h = h\<lparr>schemas := (schemas h)(a := f (schemas h a))\<rparr>"

definition upd_spec :: "addr \<Rightarrow> (schema_spec \<Rightarrow> schema_spec) \<Rightarrow> heap \<Rightarrow> heap" where
  "upd_spec a f h = upd_schema a (\<lambda>s. s\<lparr>s_spec := f (s_spec s)\<rparr>) h"

text \<open>The tests array and the exclusivity table that a node refers to.\<close>

definition tests_of :: "heap \<Rightarrow> addr \<Rightarrow> validation list" where
  "tests_of h a = arrays h (s_tests (schemas h a))"

definition exclusive_of :: "heap \<Rightarrow> addr \<Rightarrow> (string \<Rightarrow> bool option)" where
  "exclusive_of h a = tables h (s_exclusive (schemas h a))"

section \<open>clone and withMutation\<close>

text \<open>
  The customizer that \<^verbatim>\<open>clone\<close> hands to \<^verbatim>\<open>cloneDeepWith\<close>: a schema other
  than the receiver is returned as it is, anything else is left to the deep copy.
\<close>

definition customizer :: "addr \<Rightarrow> unknown \<Rightarrow> unknown option" where
  "customizer this v = (if isSchema v \<and> v \<noteq> SchemaV this then Some v else None)"

text \<open>
  lodash's \<^verbatim>\<open>cloneDeepWith\<close> on a value nested in the node \<open>this\<close> whose copy is
  \<open>new\<close>: the customizer's answer if it gives one; otherwise a deep copy, which for a
  plain value is the value and for the receiver met again inside itself is the copy
  already under construction.
\<close>

definition cloneValue :: "addr \<Rightarrow> addr \<Rightarrow> unknown \<Rightarrow> unknown" where
  "cloneValue this new v =
     (case customizer this v of
        Some r \<Rightarrow> r
      | None \<Rightarrow> (case v of SchemaV _ \<Rightarrow> SchemaV new | _ \<Rightarrow> v))"

definition cloneRefSet :: "addr \<Rightarrow> addr \<Rightarrow> RefSet \<Rightarrow> RefSet" where
  "cloneRefSet this new s =
     \<lparr>rs_list = map (cloneValue this new) (rs_list s), rs_refs = rs_refs s\<rparr>"

definition cloneSpec :: "addr \<Rightarrow> addr \<Rightarrow> schema_spec \<Rightarrow> schema_spec" where
  "cloneSpec this new sp = sp\<lparr>meta := map_option (cloneValue this new) (meta sp)\<rparr>"

text \<open>
  The deep copy of a node: a new node at the next free address with a new tests array and
  a new exclusivity table of the same contents. The validations in the array are
  functions, which a deep copy keeps as they are.
\<close>

definition cloneDeepWith :: "addr \<Rightarrow> heap \<Rightarrow> addr \<times> heap" where
  "cloneDeepWith this h =
     (let new = nxt h;
          s = schemas h this;
          s' = s\<lparr>s_exclusive := new + 1,
                 s_whitelist := cloneRefSet this new (s_whitelist s),
                 s_blacklist := cloneRefSet this new (s_blacklist s),
                 s_tests := new + 2,
                 s_meta := map_option (cloneValue this new) (s_meta s),
                 s_spec := cloneSpec this new (s_spec s)\<rparr>
      in (new,
          h\<lparr>schemas := (schemas h)(new := s'),
            tables := (tables h)(new + 1 := tables h (s_exclusive s)),
            arrays := (arrays h)(new + 2 := arrays h (s_tests s)),
            nxt := new + 3\<rparr>))"

definition clone :: "addr \<Rightarrow> heap \<Rightarrow> addr \<times> heap" where
  "clone this h = (if s_mutate (schemas h this) then (this, h) else cloneDeepWith this h)"

text \<open>
  \<^verbatim>\<open>withMutation(fn)\<close>. An exception of \<open>fn\<close> leaves the method before the flag is
  restored; the store after an exception is not observed in this model.
\<close>

definition withMutation ::
  "(addr \<Rightarrow> heap \<Rightarrow> error + ('r \<times> heap)) \<Rightarrow> addr \<Rightarrow> heap \<Rightarrow> error + ('r \<times> heap)" where
  "withMutation fn this h =
     (let before = s_mutate (schemas h this);
          h1 = upd_schema this (\<lambda>s. s\<lparr>s_mutate := True\<rparr>) h
      in case fn this h1 of
           Inl e \<Rightarrow> Inl e
         | Inr (result, h2) \<Rightarrow> Inr (result, upd_schema this (\<lambda>s. s\<lparr>s_mutate := before\<rparr>) h2))"

section \<open>Test registration\<close>

text \<open>
  \<^verbatim>\<open>test(...)\<close> on a config (the other argument shapes are turned into one below).
  \<^verbatim>\<open>filter\<close> builds a new array, onto which the validation is pushed.
\<close>

definition test :: "test_config \<Rightarrow> addr \<Rightarrow> heap \<Rightarrow> error + (addr \<times> heap)" where
  "test opts0 this h =
     (let opts = (if message opts0 = None then opts0\<lparr>message := Some LocaleDefault\<rparr> else opts0)
      in if test_fn opts = None then Inl (TypeError TestRequired)
         else
           let (next, h1) = clone this h;
               validate = createValidation opts;
               tab = s_exclusive (schemas h1 next);
               isExclusive =
                 (exclusive opts \<or>
                  (truthy (name opts) \<and> tables h1 tab (the (name opts)) = Some True))
           in if exclusive opts \<and> \<not> truthy (name opts) then Inl (TypeError ExclusiveNeedsName)
              else
                let h2 = (if truthy (name opts)
                          then h1\<lparr>tables := (tables h1)
                                 (tab := (tables h1 tab)(the (name opts) \<mapsto> exclusive opts))\<rparr>
                          else h1);
                    kept = filter
                      (\<lambda>fn. \<not> (name (OPTIONS fn) = name opts \<and>
                                 (isExclusive \<or>
                                  test_fn (OPTIONS fn) = test_fn (OPTIONS validate))))
                      (arrays h2 (s_tests (schemas h2 next)));
                    arr = nxt h2;
                    h3 = (upd_schema next (\<lambda>s. s\<lparr>s_tests := arr\<rparr>) h2)
                           \<lparr>arrays := (arrays h2)(arr := kept), nxt := arr + 1\<rparr>;
                    h4 = h3\<lparr>arrays := (arrays h3)(arr := arrays h3 arr @ [validate])\<rparr>
                in Inr (next, h4))"

definition test_function :: "testfn \<Rightarrow> addr \<Rightarrow> heap \<Rightarrow> error + (addr \<times> heap)" where
  "test_function f =
     test \<lparr>name = None, message = None, params = [], exclusive = False, test_fn = Some f\<rparr>"

definition test_named :: "string \<Rightarrow> testfn \<Rightarrow> addr \<Rightarrow> heap \<Rightarrow> error + (addr \<times> heap)" where
  "test_named n f =
     test \<lparr>name = Some n, message = None, params = [], exclusive = False, test_fn = Some f\<rparr>"

definition test_named_message ::
  "string \<Rightarrow> message \<Rightarrow> testfn \<Rightarrow> addr \<Rightarrow> heap \<Rightarrow> error + (addr \<times> heap)" where
  "test_named_message n m f =
     test \<lparr>name = Some n, message = Some m, params = [], exclusive = False, test_fn = Some f\<rparr>"

text \<open>\<^verbatim>\<open>required(message)\<close>, whose test is \<^verbatim>\<open>_isPresent\<close>.\<close>

definition isPresent :: "jsval \<Rightarrow> bool" where
  "isPresent v = (v \<noteq> Undefined \<and> v \<noteq> Null)"



section \<open>Construction and the simple mutators\<close>

text \<open>\<^verbatim>\<open>isType\<close>, and the base class's \<^verbatim>\<open>_typeCheck\<close>, which accepts every value.\<close>

definition typeCheck :: "jsval \<Rightarrow> bool" where
  "typeCheck v = True"

definition isType :: "schema \<Rightarrow> jsval \<Rightarrow> bool" where
  "isType s v = (if nullable (s_spec s) \<and> v = Null then True else s_typeCheck s v)"

definition typeError :: "message \<Rightarrow> addr \<Rightarrow> heap \<Rightarrow> addr \<times> heap" where
  "typeError msg this h =
     (let (next, h1) = clone this h
      in (next,
          upd_schema next
            (\<lambda>s. s\<lparr>s_typeError := Some (createValidation
                 \<lparr>name = Some ''typeError'', message = Some msg, params = [],
                  exclusive = False, test_fn = Some TypeErrorTest\<rparr>)\<rparr>) h1))"

text \<open>
  The options of the constructor: a type tag and the entries of \<^verbatim>\<open>options.spec\<close>
  that are given, which are spread over the constructor's own initial spec.
\<close>

record spec_options =
  so_nullable :: "bool option"
  so_default :: "jsval option"
  so_hasDefault :: "bool option"
  so_abortEarly :: "bool option"
  so_strip :: "bool option"
  so_strict :: "bool option"
  so_recursive :: "bool option"
  so_label :: "string option"
  so_meta :: "unknown option"

record schema_options =
  so_type :: "string option"
  so_spec :: spec_options

definition or_else :: "'a option \<Rightarrow> 'a \<Rightarrow> 'a" where
  "or_else x d = (case x of None \<Rightarrow> d | Some v \<Rightarrow> v)"

definition spread_spec :: "spec_options \<Rightarrow> schema_spec" where
  "spread_spec so =
     \<lparr>nullable = or_else (so_nullable so) False,
      default_val = or_else (so_default so) Undefined,
      hasDefault = or_else (so_hasDefault so) False,
      abortEarly = or_else (so_abortEarly so) True,
      strip = or_else (so_strip so) False,
      strict = or_else (so_strict so) False,
      recursive = or_else (so_recursive so) True,
      label = so_label so,
      meta = so_meta so\<rparr>"

definition no_spec_options :: spec_options where
  "no_spec_options =
     \<lparr>so_nullable = None, so_default = None, so_hasDefault = None, so_abortEarly = None,
      so_strip = None, so_strict = None, so_recursive = None, so_label = None,
      so_meta = None\<rparr>"

text \<open>
  The constructor, run for a class whose \<^verbatim>\<open>_typeCheck\<close> method is \<open>tc\<close>: the field
  initialisers, the empty tests array, the type-error test installed inside a mutation
  window, then the type tag and the spec.
\<close>

definition construct :: "(jsval \<Rightarrow> bool) \<Rightarrow> schema_options option \<Rightarrow> heap \<Rightarrow> addr \<times> heap" where
  "construct tc options h =
     (let this = nxt h;
          obj = \<lparr>s_type = [], s_typeCheck = tc, s_deps = [], s_exclusive = this + 1,
                 s_whitelist = RefSet_new, s_blacklist = RefSet_new, s_tests = this + 2,
                 s_transforms = [], s_mutate = False, s_label = None, s_meta = None,
                 s_conditions = [], s_typeError = None, s_whitelistError = None,
                 s_blacklistError = None, s_spec = spread_spec no_spec_options\<rparr>;
          h1 = h\<lparr>schemas := (schemas h)(this := obj),
                 tables := (tables h)(this + 1 := Map.empty),
                 arrays := (arrays h)(this + 2 := []),
                 nxt := this + 3\<rparr>;
          h2 = (case withMutation (\<lambda>s g. Inr (typeError LocaleNotType s g)) this h1 of
                  Inl e \<Rightarrow> h1
                | Inr (r, g) \<Rightarrow> g);
          ty = (case options of
                  None \<Rightarrow> ''mixed''
                | Some opt \<Rightarrow> (if truthy (so_type opt) then the (so_type opt) else ''mixed''));
          sp = (case options of
                  None \<Rightarrow> spread_spec no_spec_options
                | Some opt \<Rightarrow> spread_spec (so_spec opt))
      in (this, upd_schema this (\<lambda>s. s\<lparr>s_type := ty, s_spec := sp\<rparr>) h2))"

definition create :: "heap \<Rightarrow> addr \<times> heap" where
  "create h = construct typeCheck None h"

text \<open>The store before anything is allocated.\<close>

definition empty_schema :: schema where
  "empty_schema =
     \<lparr>s_type = [], s_typeCheck = typeCheck, s_deps = [], s_exclusive = 0,
      s_whitelist = RefSet_new, s_blacklist = RefSet_new, s_tests = 0,
      s_transforms = [], s_mutate = False, s_label = None, s_meta = None,
      s_conditions = [], s_typeError = None, s_whitelistError = None,
      s_blacklistError = None, s_spec = spread_spec no_spec_options\<rparr>"

definition empty_heap :: heap where
  "empty_heap =
     \<lparr>schemas = (\<lambda>a. empty_schema), arrays = (\<lambda>a. []), tables = (\<lambda>a. Map.empty), nxt = 0\<rparr>"

text \<open>\<^verbatim>\<open>default(def)\<close> with an argument, \<^verbatim>\<open>nullable\<close>, \<^verbatim>\<open>strict\<close>, \<^verbatim>\<open>transform\<close>.\<close>

definition default_set :: "jsval \<Rightarrow> addr \<Rightarrow> heap \<Rightarrow> addr \<times> heap" where
  "default_set def this h =
     (let (next, h1) = clone this h
      in (next, upd_spec next (\<lambda>sp. sp\<lparr>hasDefault := True, default_val := def\<rparr>) h1))"

definition nullable_set :: "bool \<Rightarrow> addr \<Rightarrow> heap \<Rightarrow> addr \<times> heap" where
  "nullable_set isNullable this h =
     (let (next, h1) = clone this h
      in (next, upd_spec next (\<lambda>sp. sp\<lparr>nullable := isNullable\<rparr>) h1))"

definition strict_set :: "bool \<Rightarrow> addr \<Rightarrow> heap \<Rightarrow> addr \<times> heap" where
  "strict_set isStrict this h =
     (let (next, h1) = clone this h
      in (next, upd_spec next (\<lambda>sp. sp\<lparr>strict := isStrict\<rparr>) h1))"

definition transform :: "nat \<Rightarrow> addr \<Rightarrow> heap \<Rightarrow> addr \<times> heap" where
  "transform fn this h =
     (let (next, h1) = clone this h
      in (next, upd_schema next (\<lambda>s. s\<lparr>s_transforms := s_transforms s @ [fn]\<rparr>) h1))"


section \<open>oneOf and notOneOf\<close>

definition oneOf_message :: "unknown list \<Rightarrow> message \<Rightarrow> addr \<Rightarrow> heap \<Rightarrow> addr \<times> heap" where
  "oneOf_message enums msg this h =
     (let (next, h1) = clone this h;
          h2 = fold (\<lambda>val g.
                 upd_schema next (\<lambda>s. s\<lparr>s_blacklist := RefSet_delete val (s_blacklist s)\<rparr>)
                   (upd_schema next (\<lambda>s. s\<lparr>s_whitelist := RefSet_add val (s_whitelist s)\<rparr>) g))
               enums h1
      in (next,
          upd_schema next
            (\<lambda>s. s\<lparr>s_whitelistError := Some (createValidation
                 \<lparr>name = Some ''oneOf'', message = Some msg, params = [],
                  exclusive = False, test_fn = Some OneOfTest\<rparr>)\<rparr>) h2))"

definition oneOf :: "unknown list \<Rightarrow> addr \<Rightarrow> heap \<Rightarrow> addr \<times> heap" where
  "oneOf enums = oneOf_message enums LocaleOneOf"

definition notOneOf_message :: "unknown list \<Rightarrow> message \<Rightarrow> addr \<Rightarrow> heap \<Rightarrow> addr \<times> heap" where
  "notOneOf_message enums msg this h =
     (let (next, h1) = clone this h;
          h2 = fold (\<lambda>val g.
                 upd_schema next (\<lambda>s. s\<lparr>s_whitelist := RefSet_delete val (s_whitelist s)\<rparr>)
                   (upd_schema next (\<lambda>s. s\<lparr>s_blacklist := RefSet_add val (s_blacklist s)\<rparr>) g))
               enums h1
      in (next,
          upd_schema next
            (\<lambda>s. s\<lparr>s_blacklistError := Some (createValidation
                 \<lparr>name = Some ''notOneOf'', message = Some msg, params = [],
                  exclusive = False, test_fn = Some NotOneOfTest\<rparr>)\<rparr>) h2))"

definition notOneOf :: "unknown list \<Rightarrow> addr \<Rightarrow> heap \<Rightarrow> addr \<times> heap" where
  "notOneOf enums = notOneOf_message enums LocaleNotOneOf"

section \<open>concat\<close>

text \<open>
  Modelled from the spec: \<^verbatim>\<open>merge\<close> (\<^verbatim>\<open>./util/prependDeep\<close>), called as
  \<^verbatim>\<open>merge(target, source)\<close>, a deep merge that writes into the target and returns it.
  For every key of the source: a field that the target has not set (\<^verbatim>\<open>undefined\<close>)
  takes the source's value; two plain objects are merged in the same way, key by key; two
  arrays are joined, the source's entries first; in every other case the target keeps its
  value. The target is the clone that \<^verbatim>\<open>concat\<close> has just made, so none of its arrays
  and objects is the source's own. Two values that are both schemas are left as the
  target's here. The tests array, the exclusivity table and the two sets are left out:
  \<^verbatim>\<open>concat\<close> replaces them right after the merge.
\<close>

fun merge_value :: "jsval \<Rightarrow> jsval \<Rightarrow> jsval"
  and merge_fields :: "(string \<times> jsval) list \<Rightarrow> (string \<times> jsval) list \<Rightarrow> (string \<times> jsval) list"
  where
  "merge_value targetVal sourceVal =
     (if targetVal = Undefined then sourceVal
      else case targetVal of
             VObj tf \<Rightarrow> (case sourceVal of VObj sf \<Rightarrow> VObj (merge_fields tf sf) | _ \<Rightarrow> targetVal)
           | VArr ts \<Rightarrow> (case sourceVal of VArr ss \<Rightarrow> VArr (ss @ ts) | _ \<Rightarrow> targetVal)
           | _ \<Rightarrow> targetVal)"
| "merge_fields target [] = target"
| "merge_fields target ((k, sourceVal) # rest) =
     merge_fields
       (case map_of target k of
          None \<Rightarrow> target @ [(k, sourceVal)]
        | Some targetVal \<Rightarrow> AList.update k (merge_value targetVal sourceVal) target)
       rest"

definition merge_option :: "'a option \<Rightarrow> 'a option \<Rightarrow> 'a option" where
  "merge_option targetVal sourceVal = (case targetVal of None \<Rightarrow> sourceVal | Some v \<Rightarrow> Some v)"

definition merge_meta :: "unknown option \<Rightarrow> unknown option \<Rightarrow> unknown option" where
  "merge_meta targetVal sourceVal =
     (case targetVal of
        None \<Rightarrow> sourceVal
      | Some (Val t) \<Rightarrow>
          (case sourceVal of Some (Val s) \<Rightarrow> Some (Val (merge_value t s)) | _ \<Rightarrow> targetVal)
      | _ \<Rightarrow> targetVal)"

definition merge_spec :: "schema_spec \<Rightarrow> schema_spec \<Rightarrow> schema_spec" where
  "merge_spec target source =
     target\<lparr>default_val := merge_value (default_val target) (default_val source),
            label := merge_option (label target) (label source),
            meta := merge_meta (meta target) (meta source)\<rparr>"

definition merge :: "addr \<Rightarrow> addr \<Rightarrow> heap \<Rightarrow> heap" where
  "merge target source h =
     (let src = schemas h source
      in upd_schema target
           (\<lambda>t. t\<lparr>s_deps := s_deps src @ s_deps t,
                  s_transforms := s_transforms src @ s_transforms t,
                  s_mutate := (s_mutate t \<or> s_mutate src),
                  s_label := merge_option (s_label t) (s_label src),
                  s_meta := merge_meta (s_meta t) (s_meta src),
                  s_conditions := s_conditions src @ s_conditions t,
                  s_typeError := merge_option (s_typeError t) (s_typeError src),
                  s_whitelistError := merge_option (s_whitelistError t) (s_whitelistError src),
                  s_blacklistError := merge_option (s_blacklistError t) (s_blacklistError src),
                  s_spec := merge_spec (s_spec t) (s_spec src)\<rparr>) h)"

text \<open>\<^verbatim>\<open>schema.tests.forEach((fn) => next.test(fn.OPTIONS))\<close>; the results are dropped.\<close>

fun forEach_test :: "validation list \<Rightarrow> addr \<Rightarrow> heap \<Rightarrow> error + (unit \<times> heap)" where
  "forEach_test [] next h = Inr ((), h)"
| "forEach_test (fn # fns) next h =
     (case test (OPTIONS fn) next h of
        Inl e \<Rightarrow> Inl e
      | Inr (r, h') \<Rightarrow> forEach_test fns next h')"

text \<open>
  \<^verbatim>\<open>concat(schema)\<close>; an absent argument is \<open>None\<close>. The body is in two parts:
  \<open>concat_merged\<close> is the merge and the assignments up to the two sets,
  \<open>concat\<close> the checks before it and the re-registration of the tests after it.
\<close>

definition concat_merged :: "addr \<Rightarrow> addr \<Rightarrow> heap \<Rightarrow> addr \<times> heap" where
  "concat_merged other this h =
     (let (next, h1) = clone other h;
          h2 = merge next this h1;
          h3 = (if hasDefault (s_spec (schemas h2 other))
                then upd_spec next
                       (\<lambda>sp. sp\<lparr>default_val := default_val (s_spec (schemas h2 other))\<rparr>) h2
                else h2);
          h4 = upd_schema next (\<lambda>s. s\<lparr>s_tests := s_tests (schemas h3 this)\<rparr>) h3;
          h5 = upd_schema next (\<lambda>s. s\<lparr>s_exclusive := s_exclusive (schemas h4 this)\<rparr>) h4;
          h6 = upd_schema next
                 (\<lambda>s. s\<lparr>s_whitelist :=
                    RefSet_merge (s_whitelist (schemas h5 this))
                      (s_whitelist (schemas h5 other)) (s_blacklist (schemas h5 other))\<rparr>) h5;
          h7 = upd_schema next
                 (\<lambda>s. s\<lparr>s_blacklist :=
                    RefSet_merge (s_blacklist (schemas h6 this))
                      (s_blacklist (schemas h6 other)) (s_whitelist (schemas h6 other))\<rparr>) h6
      in (next, h7))"

definition concat :: "addr option \<Rightarrow> addr \<Rightarrow> heap \<Rightarrow> error + (addr \<times> heap)" where
  "concat schema this h =
     (case schema of
        None \<Rightarrow> Inr (this, h)
      | Some other \<Rightarrow>
          if other = this then Inr (this, h)
          else if s_type (schemas h other) \<noteq> s_type (schemas h this) \<and>
                  s_type (schemas h this) \<noteq> ''mixed''
          then Inl (TypeError (ConcatDifferentTypes (s_type (schemas h this))
                                 (s_type (schemas h other))))
          else
            case withMutation (\<lambda>n g. forEach_test (tests_of g other) n g)
                   (fst (concat_merged other this h)) (snd (concat_merged other this h)) of
              Inl e \<Rightarrow> Inl e
            | Inr (r, h8) \<Rightarrow> Inr (fst (concat_merged other this h), h8))"

section \<open>Caller code and options\<close>

record options =
  o_value :: jsval
  o_assert :: "bool option"
  o_strict :: "bool option"
  o_abortEarly :: "bool option"
  o_path :: "string option"
  o_sync :: "bool option"
  o_parent :: "(string \<times> jsval) list"
  o_context :: "(string \<times> jsval) list"

text \<open>
  What the engine calls but does not define: the caller's test functions, transforms and
  default factories, each named by number, the value that a reference stands for, and
  \<^verbatim>\<open>Condition.resolve\<close> (\<^verbatim>\<open>./Condition\<close>), which is handed the schema and the
  options and returns a schema or throws.
\<close>

record env =
  run_test :: "nat \<Rightarrow> jsval \<Rightarrow> bool"
  run_transform :: "nat \<Rightarrow> jsval \<Rightarrow> jsval \<Rightarrow> jsval"
  run_factory :: "nat \<Rightarrow> jsval"
  getValue :: "reference \<Rightarrow> options \<Rightarrow> jsval"
  condition_resolve :: "nat \<Rightarrow> addr \<Rightarrow> options \<Rightarrow> heap \<Rightarrow> error + (addr \<times> heap)"

section \<open>resolve\<close>

text \<open>\<^verbatim>\<open>conditions.reduce((schema, condition) => condition.resolve(schema, options), schema)\<close>\<close>

fun reduce_conditions ::
  "(nat \<Rightarrow> addr \<Rightarrow> heap \<Rightarrow> error + (addr \<times> heap)) \<Rightarrow> nat list \<Rightarrow> addr \<Rightarrow> heap
     \<Rightarrow> error + (addr \<times> heap)" where
  "reduce_conditions f [] schema h = Inr (schema, h)"
| "reduce_conditions f (condition # rest) schema h =
     (case f condition schema h of
        Inl e \<Rightarrow> Inl e
      | Inr (schema', h') \<Rightarrow> reduce_conditions f rest schema' h')"

text \<open>
  \<^verbatim>\<open>resolve(options)\<close> calls itself on the schema that the conditions produce, which
  may carry conditions again: \<open>None\<close> is the call that never returns.
\<close>

partial_function (option) resolve ::
  "env \<Rightarrow> options \<Rightarrow> addr \<Rightarrow> heap \<Rightarrow> (error + (addr \<times> heap)) option" where
  "resolve e options this h =
     (if s_conditions (schemas h this) \<noteq> [] then
        (case reduce_conditions (\<lambda>c s g. condition_resolve e c s options g)
                (s_conditions (schemas h this))
                (fst (clone this h))
                (upd_schema (fst (clone this h)) (\<lambda>s. s\<lparr>s_conditions := []\<rparr>)
                   (snd (clone this h))) of
           Inl err \<Rightarrow> Some (Inl err)
         | Inr (schema, h') \<Rightarrow> resolve e options schema h')
      else Some (Inr (this, h)))"

section \<open>cast\<close>

definition UNSET :: jsval where
  "UNSET = VStr ''@@UNSET_DEFAULT''"

text \<open>
  \<^verbatim>\<open>default()\<close> without an argument: a factory is called, any other default is
  handed out as a deep copy, which has the same entries.
\<close>

definition default_get :: "env \<Rightarrow> schema \<Rightarrow> jsval" where
  "default_get e s =
     (let defaultValue = default_val (s_spec s)
      in if defaultValue = Undefined \<or> defaultValue = Null then defaultValue
         else (case defaultValue of VFn k \<Rightarrow> run_factory e k | _ \<Rightarrow> defaultValue))"

text \<open>\<^verbatim>\<open>_cast(rawValue, _options)\<close>\<close>

definition internal_cast :: "env \<Rightarrow> schema \<Rightarrow> jsval \<Rightarrow> options \<Rightarrow> jsval" where
  "internal_cast e s rawValue options =
     (let v = (if rawValue = Undefined then rawValue
               else foldl (\<lambda>v fn. run_transform e fn v rawValue) rawValue (s_transforms s))
      in if v = Undefined \<and> default_val (s_spec s) \<noteq> UNSET then default_get e s else v)"

definition cast ::
  "env \<Rightarrow> jsval \<Rightarrow> options \<Rightarrow> addr \<Rightarrow> heap \<Rightarrow> (error + (jsval \<times> heap)) option" where
  "cast e v options this h =
     (case resolve e (options\<lparr>o_value := v\<rparr>) this h of
        None \<Rightarrow> None
      | Some (Inl err) \<Rightarrow> Some (Inl err)
      | Some (Inr (resolvedSchema, h1)) \<Rightarrow>
          (let result = internal_cast e (schemas h1 resolvedSchema) v options
           in if v \<noteq> Undefined \<and> o_assert options \<noteq> Some False \<and>
                 \<not> isType (schemas h1 resolvedSchema) result
              then Some (Inl (TypeError (CastFailed (o_path options)
                            (s_type (schemas h1 resolvedSchema)) v result)))
              else Some (Inr (result, h1))))"

section \<open>Validation\<close>

text \<open>The bodies of the three synthesized tests: \<open>True\<close> is a pass.\<close>

definition typeError_test :: "schema \<Rightarrow> jsval \<Rightarrow> bool" where
  "typeError_test s v = (if v \<noteq> Undefined \<and> \<not> isType s v then False else True)"

definition oneOf_test :: "(reference \<Rightarrow> unknown) \<Rightarrow> schema \<Rightarrow> jsval \<Rightarrow> bool" where
  "oneOf_test lookup s v =
     (if v = Undefined then True
      else (let valids = s_whitelist s in if RefSet_has lookup (Val v) valids then True else False))"

definition notOneOf_test :: "(reference \<Rightarrow> unknown) \<Rightarrow> schema \<Rightarrow> jsval \<Rightarrow> bool" where
  "notOneOf_test lookup s v =
     (let invalids = s_blacklist s in if RefSet_has lookup (Val v) invalids then False else True)"

text \<open>
  Modelled from the spec: running a validation built by \<^verbatim>\<open>createValidation\<close>. The test
  function is called on the value with the validating schema as \<^verbatim>\<open>this.schema\<close> and
  \<^verbatim>\<open>this.resolve\<close> looking references up; a result that is not a pass is a failure
  carrying the test's name and message.
\<close>

definition run_validation ::
  "env \<Rightarrow> heap \<Rightarrow> addr \<Rightarrow> options \<Rightarrow> jsval \<Rightarrow> validation \<Rightarrow> failure option" where
  "run_validation e h this options v t =
     (let passed =
        (case test_fn (OPTIONS t) of
           None \<Rightarrow> True
         | Some TypeErrorTest \<Rightarrow> typeError_test (schemas h this) v
         | Some OneOfTest \<Rightarrow> oneOf_test (\<lambda>r. Val (getValue e r options)) (schemas h this) v
         | Some NotOneOfTest \<Rightarrow> notOneOf_test (\<lambda>r. Val (getValue e r options)) (schemas h this) v
         | Some RequiredTest \<Rightarrow> isPresent v
         | Some (UserTest k) \<Rightarrow> run_test e k v)
      in if passed then None
         else Some \<lparr>f_type = name (OPTIONS t), f_message = message (OPTIONS t), f_value = v\<rparr>)"

text \<open>
  Modelled from the spec: \<^verbatim>\<open>runTests\<close> (\<^verbatim>\<open>./util/runTests\<close>) in synchronous mode.
  The tests are driven strictly in order; with \<^verbatim>\<open>endEarly\<close> the first failure stops the
  run and is the single error, without it every test runs and all failures are collected
  into one error. The second component lists the tests that were run.
\<close>

fun run_each ::
  "(validation \<Rightarrow> failure option) \<Rightarrow> bool \<Rightarrow> validation list \<Rightarrow> failure list \<times> validation list" where
  "run_each run endEarly [] = ([], [])"
| "run_each run endEarly (t # ts) =
     (case run t of
        None \<Rightarrow> (fst (run_each run endEarly ts), t # snd (run_each run endEarly ts))
      | Some f \<Rightarrow>
          if endEarly then ([f], [t])
          else (f # fst (run_each run endEarly ts), t # snd (run_each run endEarly ts)))"

definition runTests ::
  "(validation \<Rightarrow> failure option) \<Rightarrow> bool \<Rightarrow> validation list \<Rightarrow> error option \<times> validation list" where
  "runTests run endEarly tests =
     (let (fs, ran) = run_each run endEarly tests
      in (if fs = [] then None else Some (ValidationError fs), ran))"

text \<open>
  \<^verbatim>\<open>_validate\<close> in synchronous mode. The callback's arguments \<^verbatim>\<open>(err, value)\<close> are the
  first component of the result; the second is the list of the tests that were run, each
  marked with the batch that ran it.
\<close>

datatype batch = Initial | User

definition initialTests :: "schema \<Rightarrow> validation list" where
  "initialTests s =
     (case s_typeError s of None \<Rightarrow> [] | Some t \<Rightarrow> [t]) @
     (case s_whitelistError s of None \<Rightarrow> [] | Some t \<Rightarrow> [t]) @
     (case s_blacklistError s of None \<Rightarrow> [] | Some t \<Rightarrow> [t])"

definition validate_strict :: "options \<Rightarrow> schema \<Rightarrow> bool" where
  "validate_strict options s = or_else (o_strict options) (strict (s_spec s))"

definition validate_abortEarly :: "options \<Rightarrow> schema \<Rightarrow> bool" where
  "validate_abortEarly options s = or_else (o_abortEarly options) (abortEarly (s_spec s))"

definition validate_value :: "env \<Rightarrow> options \<Rightarrow> schema \<Rightarrow> jsval \<Rightarrow> jsval" where
  "validate_value e options s v0 =
     (if \<not> validate_strict options s
      then internal_cast e s v0 (options\<lparr>o_assert := Some (or_else (o_assert options) False)\<rparr>)
      else v0)"

definition internal_validate ::
  "env \<Rightarrow> jsval \<Rightarrow> options \<Rightarrow> addr \<Rightarrow> heap
     \<Rightarrow> (error option \<times> jsval) \<times> (batch \<times> validation) list" where
  "internal_validate e v0 options this h =
     (let s = schemas h this;
          endEarly = validate_abortEarly options s;
          v = validate_value e options s v0;
          (err, ran) = runTests (run_validation e h this options v) endEarly (initialTests s)
      in case err of
           Some x \<Rightarrow> ((Some x, v), map (Pair Initial) ran)
         | None \<Rightarrow>
             (let (err', ran') = runTests (run_validation e h this options v) endEarly (tests_of h this)
              in ((err', v), map (Pair Initial) ran @ map (Pair User) ran')))"



section \<open>Vocabulary of the properties\<close>

text \<open>The config as \<^verbatim>\<open>test\<close> registers it: a missing message is the locale's default.\<close>

definition with_message :: "test_config \<Rightarrow> test_config" where
  "with_message opts = (if message opts = None then opts\<lparr>message := Some LocaleDefault\<rparr> else opts)"

text \<open>
  The value of \<^verbatim>\<open>isExclusive\<close> in \<^verbatim>\<open>test\<close>: the config asks for exclusivity, or
  its name is flagged in the receiver's exclusivity table.
\<close>

definition isExclusive :: "heap \<Rightarrow> addr \<Rightarrow> test_config \<Rightarrow> bool" where
  "isExclusive h this opts =
     (exclusive opts \<or> (truthy (name opts) \<and> exclusive_of h this (the (name opts)) = Some True))"

definition named_like :: "test_config \<Rightarrow> validation \<Rightarrow> bool" where
  "named_like opts fn = (name (OPTIONS fn) = name opts)"

definition same_rule :: "test_config \<Rightarrow> validation \<Rightarrow> bool" where
  "same_rule opts fn = (name (OPTIONS fn) = name opts \<and> test_fn (OPTIONS fn) = test_fn opts)"

text \<open>A named test around the caller's function number \<open>k\<close>.\<close>

definition cfg :: "string \<Rightarrow> bool \<Rightarrow> nat \<Rightarrow> test_config" where
  "cfg n ex k =
     \<lparr>name = Some n, message = None, params = [], exclusive = ex, test_fn = Some (UserTest k)\<rparr>"

text \<open>An environment of caller code that does nothing: tests pass, transforms and
  conditions hand back what they are given.\<close>

definition plain_env :: env where
  "plain_env =
     \<lparr>run_test = (\<lambda>k v. True), run_transform = (\<lambda>k v raw. v),
      run_factory = (\<lambda>k. Undefined), getValue = (\<lambda>r opts. Undefined),
      condition_resolve = (\<lambda>c s opts g. Inr (s, g))\<rparr>"

definition no_options :: options where
  "no_options =
     \<lparr>o_value = Undefined, o_assert = None, o_strict = None, o_abortEarly = None,
      o_path = None, o_sync = None, o_parent = [], o_context = []\<rparr>"

text \<open>A concrete kind whose \<^verbatim>\<open>_typeCheck\<close> accepts numbers only.\<close>

definition isNumber :: "jsval \<Rightarrow> bool" where
  "isNumber v = (case v of VNum n \<Rightarrow> True | _ \<Rightarrow> False)"

definition number_options :: schema_options where
  "number_options = \<lparr>so_type = Some ''number'', so_spec = no_spec_options\<rparr>"

text \<open>\<^verbatim>\<open>mixed()\<close>, and a number schema with \<^verbatim>\<open>.default('abc')\<close>.\<close>

definition mixed_schema :: "addr \<times> heap" where
  "mixed_schema = create empty_heap"

definition number_with_default :: "addr \<times> heap" where
  "number_with_default =
     (let (a, h) = construct isNumber (Some number_options) empty_heap
      in default_set (VStr ''abc'') a h)"

text \<open>The two types allow \<^verbatim>\<open>concat\<close>: they are equal or the receiver is mixed.\<close>

definition concat_allowed :: "addr \<Rightarrow> addr \<Rightarrow> heap \<Rightarrow> bool" where
  "concat_allowed other this h =
     (s_type (schemas h other) = s_type (schemas h this) \<or> s_type (schemas h this) = ''mixed'')"

text \<open>A config that \<^verbatim>\<open>test\<close> accepts.\<close>

definition valid_config :: "test_config \<Rightarrow> bool" where
  "valid_config opts = (test_fn opts \<noteq> None \<and> (exclusive opts \<longrightarrow> truthy (name opts)))"

text \<open>A node whose own address, tests array and exclusivity table are in use.\<close>

definition allocated :: "heap \<Rightarrow> addr \<Rightarrow> bool" where
  "allocated h a =
     (a < nxt h \<and> s_tests (schemas h a) < nxt h \<and> s_exclusive (schemas h a) < nxt h)"

text \<open>The entry that registering \<open>fn\<close> writes into an exclusivity table.\<close>

definition flag_name :: "validation \<Rightarrow> (string \<Rightarrow> bool option) \<Rightarrow> (string \<Rightarrow> bool option)" where
  "flag_name fn tab =
     (if truthy (name (OPTIONS fn)) then tab(the (name (OPTIONS fn)) \<mapsto> exclusive (OPTIONS fn))
      else tab)"

text \<open>
  Pairs of schemas in one store, for \<^verbatim>\<open>receiver.concat(argument)\<close>:
  \<^verbatim>\<open>new MixedSchema({spec: {default: v}})\<close>, \<^verbatim>\<open>mixed().default(v)\<close> and
  \<^verbatim>\<open>mixed().test(opts)\<close> build the members.
\<close>

definition default_option :: "jsval \<Rightarrow> schema_options" where
  "default_option v = \<lparr>so_type = None, so_spec = no_spec_options\<lparr>so_default := Some v\<rparr>\<rparr>"

definition mixed_default :: "jsval \<Rightarrow> heap \<Rightarrow> addr \<times> heap" where
  "mixed_default v h = (let (a, h1) = create h in default_set v a h1)"

definition mixed_test :: "test_config \<Rightarrow> heap \<Rightarrow> addr \<times> heap" where
  "mixed_test opts h =
     (let (a, h1) = create h in case test opts a h1 of Inl e \<Rightarrow> (a, h1) | Inr r \<Rightarrow> r)"

definition two_schemas ::
  "(heap \<Rightarrow> addr \<times> heap) \<Rightarrow> (heap \<Rightarrow> addr \<times> heap) \<Rightarrow> addr \<times> addr \<times> heap" where
  "two_schemas makeA makeB =
     (let (a, h1) = makeA empty_heap; (b, h2) = makeB h1 in (a, b, h2))"

definition receiver :: "addr \<times> addr \<times> heap \<Rightarrow> addr" where "receiver x = fst x"
definition argument :: "addr \<times> addr \<times> heap \<Rightarrow> addr" where "argument x = fst (snd x)"
definition store :: "addr \<times> addr \<times> heap \<Rightarrow> heap" where "store x = snd (snd x)"

definition concat_of :: "addr \<times> addr \<times> heap \<Rightarrow> error + (addr \<times> heap)" where
  "concat_of x = concat (Some (argument x)) (receiver x) (store x)"

definition default_5_and_spec_default_1 :: "addr \<times> addr \<times> heap" where
  "default_5_and_spec_default_1 =
     two_schemas (mixed_default (VNum 5)) (construct typeCheck (Some (default_option (VNum 1))))"

definition default_1_and_mixed :: "addr \<times> addr \<times> heap" where
  "default_1_and_mixed = two_schemas (mixed_default (VNum 1)) create"

definition default_1_and_default_2 :: "addr \<times> addr \<times> heap" where
  "default_1_and_default_2 = two_schemas (mixed_default (VNum 1)) (mixed_default (VNum 2))"

definition arrays_1_and_2 :: "addr \<times> addr \<times> heap" where
  "arrays_1_and_2 =
     two_schemas (mixed_default (VArr [VNum 1]))
       (construct typeCheck (Some (default_option (VArr [VNum 2]))))"

definition objects_a1_b3_and_a2 :: "addr \<times> addr \<times> heap" where
  "objects_a1_b3_and_a2 =
     two_schemas (mixed_default (VObj [(''a'', VNum 1), (''b'', VNum 3)]))
       (construct typeCheck (Some (default_option (VObj [(''a'', VNum 2)]))))"

definition stacked_x_and_exclusive_x :: "addr \<times> addr \<times> heap" where
  "stacked_x_and_exclusive_x =
     two_schemas (mixed_test (cfg ''x'' False 1)) (mixed_test (cfg ''x'' True 2))"

definition well_formed_pair :: "addr \<times> addr \<times> heap \<Rightarrow> bool" where
  "well_formed_pair x =
     (argument x \<noteq> receiver x \<and> allocated (store x) (receiver x) \<and>
      allocated (store x) (argument x) \<and> \<not> s_mutate (schemas (store x) (argument x)) \<and>
      concat_allowed (argument x) (receiver x) (store x) \<and>
      (\<forall>a. list_all (\<lambda>fn. valid_config (OPTIONS fn)) (arrays (store x) a)))"

text \<open>The stored default of the schema that a \<^verbatim>\<open>concat\<close> returned.\<close>

definition result_default :: "error + (addr \<times> heap) \<Rightarrow> jsval" where
  "result_default r = default_val (s_spec (schemas (snd (projr r)) (fst (projr r))))"

text \<open>The test functions in the queue of \<^verbatim>\<open>schema.test(opts)\<close>, in order.\<close>

definition functions_after_test :: "test_config \<Rightarrow> addr \<Rightarrow> heap \<Rightarrow> testfn option list" where
  "functions_after_test opts a h =
     (case test opts a h of
        Inl e \<Rightarrow> []
      | Inr (n, h') \<Rightarrow> map (\<lambda>fn. test_fn (OPTIONS fn)) (tests_of h' n))"

text \<open>Nothing that was in use below the address \<open>n\<close> has changed from \<open>h\<close> to \<open>h'\<close>.\<close>

definition unchanged_below :: "addr \<Rightarrow> heap \<Rightarrow> heap \<Rightarrow> bool" where
  "unchanged_below n h h' =
     (\<forall>a<n. schemas h' a = schemas h a \<and> arrays h' a = arrays h a \<and> tables h' a = tables h a)"

text \<open>The values nested in a node, in the order whitelist, blacklist, the two metas.\<close>

definition nested_values :: "schema \<Rightarrow> unknown list" where
  "nested_values s =
     rs_list (s_whitelist s) @ rs_list (s_blacklist s) @
     (case s_meta s of None \<Rightarrow> [] | Some v \<Rightarrow> [v]) @
     (case meta (s_spec s) of None \<Rightarrow> [] | Some v \<Rightarrow> [v])"

text \<open>
  What a value nested in the node \<open>this\<close> is in the copy \<open>new\<close> of that node: the
  node itself, met inside itself, is the copy; any other value, a schema or not, is as it
  was.
\<close>

definition in_copy :: "addr \<Rightarrow> addr \<Rightarrow> unknown \<Rightarrow> unknown" where
  "in_copy this new v = (if v = SchemaV this then SchemaV new else v)"

text \<open>\<^verbatim>\<open>schema.tests.push(t)\<close>: the array is changed in place.\<close>

definition tests_push :: "validation \<Rightarrow> addr \<Rightarrow> heap \<Rightarrow> heap" where
  "tests_push t a h = h\<lparr>arrays := (arrays h)(s_tests (schemas h a) := tests_of h a @ [t])\<rparr>"

text \<open>\<^verbatim>\<open>s.withMutation(m => m.oneOf([m]))\<close> on a new schema: it lists itself.\<close>

definition self_listed :: "addr \<times> heap" where
  "self_listed =
     (let (a, h) = create empty_heap
      in case withMutation (\<lambda>m g. Inr (oneOf [SchemaV m] m g)) a h of
           Inl e \<Rightarrow> (a, h)
         | Inr r \<Rightarrow> r)"

text \<open>\<^verbatim>\<open>mixed().oneOf([n])\<close> for a schema \<^verbatim>\<open>n = mixed()\<close>.\<close>

definition nests_a_schema :: "addr \<times> heap" where
  "nests_a_schema =
     (let (n, h1) = create empty_heap; (s, h2) = create h1 in oneOf [SchemaV n] s h2)"

text \<open>The first step of \<^verbatim>\<open>withMutation\<close>: the node is inside a mutation window.\<close>

definition enter_mutation :: "addr \<Rightarrow> heap \<Rightarrow> heap" where
  "enter_mutation a h = upd_schema a (\<lambda>s. s\<lparr>s_mutate := True\<rparr>) h"
















text \<open>\<^verbatim>\<open>mixed().oneOf([1, 2, 3]).notOneOf([2])\<close>\<close>

definition one_two_three :: "addr \<times> heap" where
  "one_two_three =
     (let (a, h) = create empty_heap in oneOf [Val (VNum 1), Val (VNum 2), Val (VNum 3)] a h)"

definition one_two_three_not_two :: "addr \<times> heap" where
  "one_two_three_not_two = notOneOf [Val (VNum 2)] (fst one_two_three) (snd one_two_three)"


text \<open>The failure that a validation reports on a value.\<close>

definition failure_of :: "validation \<Rightarrow> jsval \<Rightarrow> failure" where
  "failure_of t v = \<lparr>f_type = name (OPTIONS t), f_message = message (OPTIONS t), f_value = v\<rparr>"

text \<open>The tests that \<^verbatim>\<open>oneOf\<close> and \<^verbatim>\<open>notOneOf\<close> install with their default messages.\<close>

definition oneOf_validation :: validation where
  "oneOf_validation = createValidation
     \<lparr>name = Some ''oneOf'', message = Some LocaleOneOf, params = [],
      exclusive = False, test_fn = Some OneOfTest\<rparr>"

definition notOneOf_validation :: validation where
  "notOneOf_validation = createValidation
     \<lparr>name = Some ''notOneOf'', message = Some LocaleNotOneOf, params = [],
      exclusive = False, test_fn = Some NotOneOfTest\<rparr>"

text \<open>The whitelist and the blacklist of a node.\<close>

definition whitelist_of :: "addr \<times> heap \<Rightarrow> RefSet" where
  "whitelist_of x = s_whitelist (schemas (snd x) (fst x))"

definition blacklist_of :: "addr \<times> heap \<Rightarrow> RefSet" where
  "blacklist_of x = s_blacklist (schemas (snd x) (fst x))"

text \<open>
  The pieces of \<^verbatim>\<open>_validate\<close>: how one test is run on the value to validate, and the
  two calls of \<^verbatim>\<open>runTests\<close>, on the synthesized tests and on the test queue.
\<close>

definition validate_run ::
  "env \<Rightarrow> jsval \<Rightarrow> options \<Rightarrow> addr \<Rightarrow> heap \<Rightarrow> validation \<Rightarrow> failure option" where
  "validate_run e v0 options this h =
     run_validation e h this options (validate_value e options (schemas h this) v0)"

definition initial_batch ::
  "env \<Rightarrow> jsval \<Rightarrow> options \<Rightarrow> addr \<Rightarrow> heap \<Rightarrow> error option \<times> validation list" where
  "initial_batch e v0 options this h =
     runTests (validate_run e v0 options this h) (validate_abortEarly options (schemas h this))
       (initialTests (schemas h this))"

definition user_batch ::
  "env \<Rightarrow> jsval \<Rightarrow> options \<Rightarrow> addr \<Rightarrow> heap \<Rightarrow> error option \<times> validation list" where
  "user_batch e v0 options this h =
     runTests (validate_run e v0 options this h) (validate_abortEarly options (schemas h this))
       (tests_of h this)"

text \<open>\<^verbatim>\<open>mixed().oneOf([1, 2, 3]).notOneOf([2]).test('u', f1)\<close>\<close>

definition with_user_test :: "addr \<times> heap" where
  "with_user_test =
     (case test (cfg ''u'' False 1) (fst one_two_three_not_two) (snd one_two_three_not_two) of
        Inl e \<Rightarrow> one_two_three_not_two
      | Inr r \<Rightarrow> r)"

text \<open>Of the given optional tests, those that are present, in the order given.\<close>

definition present :: "validation option list \<Rightarrow> validation list" where
  "present ts = List.map_filter (\<lambda>t. t) ts"

text \<open>\<^verbatim>\<open>mixed().test('u', f1)\<close>: the type-error test is the only synthesized one.\<close>

definition only_user_test :: "addr \<times> heap" where
  "only_user_test = mixed_test (cfg ''u'' False 1) empty_heap"

text \<open>The test that the constructor installs through \<^verbatim>\<open>typeError(locale.notType)\<close>.\<close>

definition typeError_validation :: validation where
  "typeError_validation = createValidation
     \<lparr>name = Some ''typeError'', message = Some LocaleNotType, params = [],
      exclusive = False, test_fn = Some TypeErrorTest\<rparr>"

section \<open>Test registration: replacement, stacking, re-registration\<close>

lemma tests_of_clone: "tests_of (snd (clone a h)) (fst (clone a h)) = tests_of h a"
  by (simp add: clone_def cloneDeepWith_def tests_of_def Let_def)

lemma exclusive_of_clone: "exclusive_of (snd (clone a h)) (fst (clone a h)) = exclusive_of h a"
  by (simp add: clone_def cloneDeepWith_def exclusive_of_def Let_def)

lemma with_message_simps [simp]:
  "name (with_message opts) = name opts"
  "test_fn (with_message opts) = test_fn opts"
  "exclusive (with_message opts) = exclusive opts"
  by (simp_all add: with_message_def)

text \<open>The queue after a registration, in terms of the receiver's queue.\<close>

lemma test_Inr_tests:
  assumes "test opts this h = Inr (next, h')"
  shows "tests_of h' next =
           filter (\<lambda>fn. \<not> (name (OPTIONS fn) = name opts \<and>
                           (isExclusive h this opts \<or> test_fn (OPTIONS fn) = test_fn opts)))
             (tests_of h this) @ [createValidation (with_message opts)]"
  using assms tests_of_clone[of this h] exclusive_of_clone[of this h]
  apply (simp add: test_def Let_def split: if_splits prod.splits)
  apply (auto simp: tests_of_def exclusive_of_def upd_schema_def isExclusive_def
      with_message_def createValidation_def)
  done

lemma test_Inr_exclusive:
  assumes "test opts this h = Inr (next, h')"
  shows "exclusive_of h' next =
           (if truthy (name opts) then (exclusive_of h this)(the (name opts) \<mapsto> exclusive opts)
            else exclusive_of h this)"
  using assms exclusive_of_clone[of this h]
  apply (simp add: test_def Let_def split: if_splits prod.splits)
  apply (auto simp: exclusive_of_def upd_schema_def)
  done

lemma test_succeeds:
  assumes "test_fn opts \<noteq> None" and "exclusive opts \<longrightarrow> truthy (name opts)"
  shows "\<exists>next h'. test opts this h = Inr (next, h')"
  using assms by (auto simp: test_def Let_def split: prod.splits)

text \<open>
  C1. A registration that succeeds on any schema: (1) if it is exclusive, by its own flag
  or by the flag of its name in the exclusivity table, the new test is the only test of
  that name in the resulting queue; (2) whatever the flag, the resulting queue holds
  exactly one test with this name and this test function, the new one; (3) a second
  non-exclusive registration under the same name with a different function, after a
  non-exclusive first one, leaves both tests in the queue.
\<close>

theorem test_coexistence:
  assumes reg: "test opts this h = Inr (next, h')"
  shows "(isExclusive h this opts \<longrightarrow>
            filter (named_like opts) (tests_of h' next) = [createValidation (with_message opts)])
       \<and> filter (same_rule opts) (tests_of h' next) = [createValidation (with_message opts)]
       \<and> (\<forall>opts2 next2 h2.
             test opts2 next h' = Inr (next2, h2) \<and> \<not> exclusive opts \<and> \<not> exclusive opts2 \<and>
             name opts2 = name opts \<and> test_fn opts2 \<noteq> test_fn opts \<longrightarrow>
             createValidation (with_message opts) \<in> set (tests_of h2 next2) \<and>
             createValidation (with_message opts2) \<in> set (tests_of h2 next2) \<and>
             createValidation (with_message opts) \<noteq> createValidation (with_message opts2))"
proof (intro conjI allI impI)
  note T = test_Inr_tests[OF reg]
  show "filter (named_like opts) (tests_of h' next) = [createValidation (with_message opts)]"
    if "isExclusive h this opts"
    using that by (simp add: T named_like_def createValidation_def)
  show "filter (same_rule opts) (tests_of h' next) = [createValidation (with_message opts)]"
    by (auto simp add: T same_rule_def createValidation_def filter_empty_conv)
next
  fix opts2 next2 h2
  assume a: "test opts2 next h' = Inr (next2, h2) \<and> \<not> exclusive opts \<and> \<not> exclusive opts2 \<and>
             name opts2 = name opts \<and> test_fn opts2 \<noteq> test_fn opts"
  then have reg2: "test opts2 next h' = Inr (next2, h2)" by simp
  have notex: "\<not> isExclusive h' next opts2"
    using a test_Inr_exclusive[OF reg] by (simp add: isExclusive_def)
  have in1: "createValidation (with_message opts) \<in> set (tests_of h' next)"
    by (simp add: test_Inr_tests[OF reg])
  show "createValidation (with_message opts) \<in> set (tests_of h2 next2)"
    using a in1 notex by (auto simp add: test_Inr_tests[OF reg2] createValidation_def)
  show "createValidation (with_message opts2) \<in> set (tests_of h2 next2)"
    by (simp add: test_Inr_tests[OF reg2])
  show "createValidation (with_message opts) \<noteq> createValidation (with_message opts2)"
  proof
    assume "createValidation (with_message opts) = createValidation (with_message opts2)"
    then have "test_fn (with_message opts) = test_fn (with_message opts2)"
      by (simp add: createValidation_def)
    with a show False by simp
  qed
qed

text \<open>
  On a fresh schema: an exclusive test named x flags the name; a non-exclusive test of
  that name then replaces it, and a further non-exclusive one with another function
  stacks.
\<close>

theorem test_coexistence_witness:
  "\<exists>this h next h' next2 h2.
      test (cfg ''x'' True 0) (fst (create empty_heap)) (snd (create empty_heap)) = Inr (this, h) \<and>
      test (cfg ''x'' False 1) this h = Inr (next, h') \<and>
      test (cfg ''x'' False 2) next h' = Inr (next2, h2) \<and>
      isExclusive h this (cfg ''x'' False 1) \<and>
      filter (named_like (cfg ''x'' False 1)) (tests_of h' next)
        = [createValidation (with_message (cfg ''x'' False 1))] \<and>
      filter (same_rule (cfg ''x'' False 1)) (tests_of h' next)
        = [createValidation (with_message (cfg ''x'' False 1))] \<and>
      createValidation (with_message (cfg ''x'' False 1)) \<in> set (tests_of h2 next2) \<and>
      createValidation (with_message (cfg ''x'' False 2)) \<in> set (tests_of h2 next2)"
proof -
  obtain this h where r0:
    "test (cfg ''x'' True 0) (fst (create empty_heap)) (snd (create empty_heap)) = Inr (this, h)"
    using test_succeeds[of "cfg ''x'' True 0" "fst (create empty_heap)" "snd (create empty_heap)"]
    by (auto simp: cfg_def truthy_def)
  obtain "next" h' where r1: "test (cfg ''x'' False 1) this h = Inr (next, h')"
    using test_succeeds[of "cfg ''x'' False 1" this h] by (auto simp: cfg_def truthy_def)
  obtain next2 h2 where r2: "test (cfg ''x'' False 2) next h' = Inr (next2, h2)"
    using test_succeeds[of "cfg ''x'' False 2" "next" h'] by (auto simp: cfg_def truthy_def)
  have ex: "isExclusive h this (cfg ''x'' False 1)"
    using test_Inr_exclusive[OF r0] by (simp add: isExclusive_def cfg_def truthy_def)
  have fns: "\<not> exclusive (cfg ''x'' False 1) \<and> \<not> exclusive (cfg ''x'' False 2) \<and>
      name (cfg ''x'' False 2) = name (cfg ''x'' False 1) \<and>
      test_fn (cfg ''x'' False 2) \<noteq> test_fn (cfg ''x'' False 1)"
    by (simp add: cfg_def)
  from test_coexistence[OF r1] ex r0 r1 r2 fns show ?thesis by blast
qed

section \<open>Evaluating concrete schemas\<close>

lemmas store_simps =
  create_def construct_def withMutation_def typeError_def clone_def cloneDeepWith_def
  upd_schema_def upd_spec_def Let_def empty_heap_def empty_schema_def truthy_def
  createValidation_def tests_of_def exclusive_of_def spread_spec_def no_spec_options_def
  or_else_def RefSet_new_def cloneRefSet_def cloneSpec_def

lemma number_with_default_fields:
  "s_conditions (schemas (snd number_with_default) (fst number_with_default)) = []"
  "default_val (s_spec (schemas (snd number_with_default) (fst number_with_default))) = VStr ''abc''"
  "s_typeCheck (schemas (snd number_with_default) (fst number_with_default)) = isNumber"
  "nullable (s_spec (schemas (snd number_with_default) (fst number_with_default))) = False"
  "s_transforms (schemas (snd number_with_default) (fst number_with_default)) = []"
  "s_type (schemas (snd number_with_default) (fst number_with_default)) = ''number''"
  by (simp_all add: number_with_default_def default_set_def number_options_def store_simps)

lemma no_options_fields: "o_assert no_options = None" "o_path no_options = None"
  by (simp_all add: no_options_def)

section \<open>isType and null\<close>

text \<open>
  C6, as amended. \<^verbatim>\<open>isType\<close> accepts \<^verbatim>\<open>null\<close> exactly when the schema is nullable
  or its own \<^verbatim>\<open>_typeCheck\<close> accepts \<^verbatim>\<open>null\<close>; with the base class's
  \<^verbatim>\<open>_typeCheck\<close>, which accepts everything, \<^verbatim>\<open>null\<close> is accepted whatever
  \<^verbatim>\<open>spec.nullable\<close> is.
\<close>

theorem isType_null:
  "isType s Null = (nullable (s_spec s) \<or> s_typeCheck s Null) \<and>
   isType (s\<lparr>s_typeCheck := typeCheck\<rparr>) Null"
  by (simp add: isType_def typeCheck_def)

text \<open>\<^verbatim>\<open>mixed()\<close> is not nullable and its \<^verbatim>\<open>isType\<close> accepts \<^verbatim>\<open>null\<close>.\<close>

theorem isType_null_counterexample:
  "isType (schemas (snd mixed_schema) (fst mixed_schema)) Null \<and>
   \<not> nullable (s_spec (schemas (snd mixed_schema) (fst mixed_schema)))"
  by (simp add: mixed_schema_def isType_def typeCheck_def store_simps)

section \<open>cast and the type assertion\<close>

lemma resolve_no_conditions:
  "s_conditions (schemas h this) = [] \<Longrightarrow> resolve e options this h = Some (Inr (this, h))"
  by (subst resolve.simps) simp


lemma resolve_number_with_default:
  "resolve plain_env (no_options\<lparr>o_value := v\<rparr>) (fst number_with_default)
     (snd number_with_default)
   = Some (Inr (fst number_with_default, snd number_with_default))"
  by (rule resolve_no_conditions) (rule number_with_default_fields)

lemma internal_cast_number_with_default:
  "internal_cast plain_env (schemas (snd number_with_default) (fst number_with_default))
     Undefined no_options = VStr ''abc''"
  "internal_cast plain_env (schemas (snd number_with_default) (fst number_with_default))
     (VStr ''abc'') no_options = VStr ''abc''"
  "internal_cast plain_env (schemas (snd number_with_default) (fst number_with_default))
     (VNum 7) no_options = VNum 7"
  by (simp_all add: internal_cast_def default_get_def number_with_default_fields UNSET_def)

text \<open>
  C5, as amended. Once the conditions are resolved: when the value is not
  \<^verbatim>\<open>undefined\<close> and \<^verbatim>\<open>options.assert\<close> is not \<^verbatim>\<open>false\<close>, \<^verbatim>\<open>cast\<close> throws the
  type error whenever the resolved schema's \<^verbatim>\<open>isType\<close> rejects the cast result; in
  every other case, an \<^verbatim>\<open>undefined\<close> value among them, it returns the cast result.
\<close>

theorem cast_assert:
  assumes "resolve e (options\<lparr>o_value := v\<rparr>) this h = Some (Inr (r, h1))"
  shows "cast e v options this h =
           (if v \<noteq> Undefined \<and> o_assert options \<noteq> Some False \<and>
               \<not> isType (schemas h1 r) (internal_cast e (schemas h1 r) v options)
            then Some (Inl (TypeError (CastFailed (o_path options) (s_type (schemas h1 r)) v
                                         (internal_cast e (schemas h1 r) v options))))
            else Some (Inr (internal_cast e (schemas h1 r) v options, h1)))"
  using assms by (simp add: cast_def Let_def)

text \<open>The number schema throws on the string abc and returns the number 7.\<close>

theorem cast_assert_witness:
  "cast plain_env (VStr ''abc'') no_options (fst number_with_default) (snd number_with_default)
     = Some (Inl (TypeError (CastFailed None ''number'' (VStr ''abc'') (VStr ''abc'')))) \<and>
   cast plain_env (VNum 7) no_options (fst number_with_default) (snd number_with_default)
     = Some (Inr (VNum 7, snd number_with_default))"
  using cast_assert[OF resolve_number_with_default[of "VStr ''abc''"]]
    cast_assert[OF resolve_number_with_default[of "VNum 7"]]
  by (simp add: internal_cast_number_with_default no_options_fields isType_def
      number_with_default_fields isNumber_def)

text \<open>
  The number schema with the default abc, cast on \<^verbatim>\<open>undefined\<close> with assert not
  false: \<^verbatim>\<open>isType\<close> rejects the cast result and \<^verbatim>\<open>cast\<close> returns it.
\<close>

theorem cast_assert_counterexample:
  "o_assert no_options \<noteq> Some False \<and>
   resolve plain_env (no_options\<lparr>o_value := Undefined\<rparr>) (fst number_with_default)
     (snd number_with_default) = Some (Inr (fst number_with_default, snd number_with_default)) \<and>
   \<not> isType (schemas (snd number_with_default) (fst number_with_default))
       (internal_cast plain_env (schemas (snd number_with_default) (fst number_with_default))
          Undefined no_options) \<and>
   cast plain_env Undefined no_options (fst number_with_default) (snd number_with_default)
     = Some (Inr (VStr ''abc'', snd number_with_default))"
  by (simp add: resolve_number_with_default internal_cast_number_with_default no_options_fields
      cast_def isType_def number_with_default_fields isNumber_def case_prod_unfold)

text \<open>
  C10. Once the conditions are resolved, \<^verbatim>\<open>cast\<close> on the value \<^verbatim>\<open>undefined\<close> returns
  the cast result, whatever \<^verbatim>\<open>options.assert\<close> is and whether or not \<^verbatim>\<open>isType\<close>
  accepts the result; with a default configured the result is that default.
\<close>

theorem cast_undefined_unchecked:
  assumes "resolve e (options\<lparr>o_value := Undefined\<rparr>) this h = Some (Inr (r, h1))"
  shows "cast e Undefined options this h
           = Some (Inr (internal_cast e (schemas h1 r) Undefined options, h1)) \<and>
         (default_val (s_spec (schemas h1 r)) \<noteq> UNSET \<longrightarrow>
            internal_cast e (schemas h1 r) Undefined options = default_get e (schemas h1 r))"
  using assms by (simp add: cast_def internal_cast_def)

text \<open>The number schema returns its default abc, which its type check rejects.\<close>

theorem cast_undefined_unchecked_witness:
  "cast plain_env Undefined no_options (fst number_with_default) (snd number_with_default)
     = Some (Inr (VStr ''abc'', snd number_with_default)) \<and>
   o_assert no_options \<noteq> Some False \<and>
   default_get plain_env (schemas (snd number_with_default) (fst number_with_default))
     = VStr ''abc'' \<and>
   \<not> isType (schemas (snd number_with_default) (fst number_with_default)) (VStr ''abc'')"
proof -
  have d: "default_get plain_env (schemas (snd number_with_default) (fst number_with_default))
             = VStr ''abc''"
    by (simp add: default_get_def number_with_default_fields)
  have u: "default_val (s_spec (schemas (snd number_with_default) (fst number_with_default))) \<noteq> UNSET"
    by (simp add: number_with_default_fields UNSET_def)
  from cast_undefined_unchecked[OF resolve_number_with_default[of Undefined]] d u show ?thesis
    by (simp add: no_options_fields isType_def number_with_default_fields isNumber_def)
qed

section \<open>concat\<close>

lemma clone_mutating: "s_mutate (schemas h this) \<Longrightarrow> clone this h = (this, h)"
  by (simp add: clone_def)

lemma test_mutating:
  assumes "s_mutate (schemas h this)" and "test opts this h = Inr (n, h')"
  shows "n = this \<and> schemas h' = (schemas h)(this := (schemas h this)\<lparr>s_tests := nxt h\<rparr>)"
  using assms
  by (auto simp: test_def clone_def Let_def upd_schema_def split: if_splits)

lemma forEach_test_spec:
  assumes "s_mutate (schemas h next)" and "forEach_test fns next h = Inr (u, h')"
  shows "s_spec (schemas h' next) = s_spec (schemas h next) \<and> s_mutate (schemas h' next)"
  using assms
proof (induction fns arbitrary: h)
  case Nil
  then show ?case by simp
next
  case (Cons fn fns)
  from Cons.prems(2) obtain r g where t: "test (OPTIONS fn) next h = Inr (r, g)"
    and rest: "forEach_test fns next g = Inr (u, h')"
    by (auto split: sum.splits)
  from test_mutating[OF Cons.prems(1) t]
  have g: "s_spec (schemas g next) = s_spec (schemas h next)" "s_mutate (schemas g next)"
    using Cons.prems(1) by simp_all
  from Cons.IH[OF g(2) rest] g show ?case by simp
qed

lemma withMutation_forEach_spec:
  assumes "withMutation (\<lambda>n g. forEach_test (tests_of g other) n g) next h = Inr (u, h')"
  shows "s_spec (schemas h' next) = s_spec (schemas h next)"
proof -
  let ?h1 = "upd_schema next (\<lambda>s. s\<lparr>s_mutate := True\<rparr>) h"
  from assms obtain r h2 where f: "forEach_test (tests_of ?h1 other) next ?h1 = Inr (r, h2)"
    and h': "h' = upd_schema next (\<lambda>s. s\<lparr>s_mutate := s_mutate (schemas h next)\<rparr>) h2"
    by (auto simp: withMutation_def Let_def split: sum.splits)
  have m: "s_mutate (schemas ?h1 next)" by (simp add: upd_schema_def)
  from forEach_test_spec[OF m f] show ?thesis
    by (simp add: h' upd_schema_def)
qed

lemma concat_unfold:
  assumes "other \<noteq> this" and "concat_allowed other this h"
  shows "concat (Some other) this h =
           (case withMutation (\<lambda>n g. forEach_test (tests_of g other) n g)
                   (fst (concat_merged other this h)) (snd (concat_merged other this h)) of
              Inl e \<Rightarrow> Inl e
            | Inr (r, h8) \<Rightarrow> Inr (fst (concat_merged other this h), h8))"
  using assms by (auto simp: concat_def concat_allowed_def)

lemma concat_merged_fst: "fst (concat_merged other this h) = fst (clone other h)"
  by (simp add: concat_merged_def Let_def case_prod_unfold)

lemma concat_merged_arrays: "arrays (snd (concat_merged other this h)) = arrays (snd (clone other h))"
  by (simp add: concat_merged_def Let_def case_prod_unfold merge_def upd_schema_def upd_spec_def)

lemma concat_merged_tables: "tables (snd (concat_merged other this h)) = tables (snd (clone other h))"
  by (simp add: concat_merged_def Let_def case_prod_unfold merge_def upd_schema_def upd_spec_def)

lemma merge_value_cases:
  "merge_value b a =
     (if b = Undefined then a
      else case (b, a) of
             (VArr bs, VArr ys) \<Rightarrow> VArr (ys @ bs)
           | (VObj bf, VObj af) \<Rightarrow> VObj (merge_fields bf af)
           | _ \<Rightarrow> b)"
  by (simp split: jsval.splits)

lemma map_of_merge_fields:
  "distinct (map fst af) \<Longrightarrow>
   map_of (merge_fields bf af) k =
     (case map_of bf k of
        None \<Rightarrow> map_of af k
      | Some bv \<Rightarrow> (case map_of af k of None \<Rightarrow> Some bv | Some av \<Rightarrow> Some (merge_value bv av)))"
proof (induction af arbitrary: bf)
  case Nil
  then show ?case by (simp split: option.splits)
next
  case (Cons x af)
  obtain k' sv where x: "x = (k', sv)" by (cases x)
  from Cons.prems have d: "distinct (map fst af)" and nk: "map_of af k' = None"
    by (simp_all add: x map_of_eq_None_iff)
  show ?case
    using nk
    by (auto simp add: x Cons.IH[OF d] update_conv' map_add_def simp del: merge_value.simps
        split: option.splits)
qed

lemma keys_merge_fields:
  "distinct (map fst af) \<Longrightarrow>
   map fst (merge_fields bf af) = map fst bf @ filter (\<lambda>k. k \<notin> set (map fst bf)) (map fst af)"
proof (induction af arbitrary: bf)
  case Nil
  then show ?case by simp
next
  case (Cons x af)
  obtain k' sv where x: "x = (k', sv)" by (cases x)
  from Cons.prems have d: "distinct (map fst af)" and nk: "k' \<notin> set (map fst af)"
    by (simp_all add: x)
  show ?case
  proof (cases "map_of bf k'")
    case None
    then have "k' \<notin> set (map fst bf)" by (simp add: map_of_eq_None_iff)
    with nk None show ?thesis
      by (auto simp add: x Cons.IH[OF d] simp del: merge_value.simps intro: filter_cong)
  next
    case (Some tv)
    then have "k' \<in> set (map fst bf)" by (metis map_of_eq_None_iff option.distinct(1) set_map)
    with Some show ?thesis
      by (simp add: x Cons.IH[OF d] update_keys del: merge_value.simps)
  qed
qed

lemma concat_default_val:
  assumes ok: "concat (Some other) this h = Inr (next, h')"
    and ne: "other \<noteq> this"
    and alloc: "this < nxt h" "other < nxt h"
    and nomut: "\<not> s_mutate (schemas h other)"
  shows "default_val (s_spec (schemas h' next)) =
           (if hasDefault (s_spec (schemas h other))
            then default_val (s_spec (schemas h other))
            else merge_value (default_val (s_spec (schemas h other)))
                   (default_val (s_spec (schemas h this))))"
proof -
  define n where "n = nxt h"
  define h1 where "h1 = snd (clone other h)"
  have c: "clone other h = (n, h1)"
    using nomut by (simp add: clone_def cloneDeepWith_def Let_def n_def h1_def)
  have nn: "n \<noteq> this" "n \<noteq> other" using alloc by (simp_all add: n_def)
  have old: "schemas h1 this = schemas h this" "schemas h1 other = schemas h other"
    using nomut nn by (simp_all add: h1_def clone_def cloneDeepWith_def Let_def n_def)
  have new: "s_spec (schemas h1 n) = cloneSpec other n (s_spec (schemas h other))"
    using nomut by (simp add: h1_def clone_def cloneDeepWith_def Let_def n_def)
  have al: "concat_allowed other this h"
    using ok ne by (auto simp: concat_def concat_allowed_def split: if_splits)
  have f: "fst (concat_merged other this h) = n"
    by (simp add: concat_merged_fst c)
  from ok obtain u where w:
    "withMutation (\<lambda>n g. forEach_test (tests_of g other) n g) n (snd (concat_merged other this h))
       = Inr (u, h')" and nx: "next = n"
    by (auto simp: concat_unfold[OF ne al] f split: sum.splits)
  have "default_val (s_spec (schemas (snd (concat_merged other this h)) n)) =
           (if hasDefault (s_spec (schemas h other))
            then default_val (s_spec (schemas h other))
            else merge_value (default_val (s_spec (schemas h other)))
                   (default_val (s_spec (schemas h this))))"
    using nn old new
    by (simp add: concat_merged_def c Let_def merge_def merge_spec_def upd_schema_def
        upd_spec_def cloneSpec_def del: merge_value.simps)
  with withMutation_forEach_spec[OF w] nx show ?thesis by simp
qed

lemma forEach_test_succeeds:
  "list_all (\<lambda>fn. valid_config (OPTIONS fn)) fns \<Longrightarrow> \<exists>u h'. forEach_test fns next h = Inr (u, h')"
proof (induction fns arbitrary: h)
  case Nil
  then show ?case by simp
next
  case (Cons fn fns)
  then obtain r g where "test (OPTIONS fn) next h = Inr (r, g)"
    using test_succeeds[of "OPTIONS fn" "next" h] by (auto simp: valid_config_def)
  with Cons show ?case by simp
qed

lemma concat_succeeds:
  assumes "concat_allowed other this h"
    and "\<forall>a. list_all (\<lambda>fn. valid_config (OPTIONS fn)) (arrays h a)"
  shows "\<exists>next h'. concat (Some other) this h = Inr (next, h')"
proof (cases "other = this")
  case True
  then show ?thesis by (simp add: concat_def)
next
  case False
  let ?nx = "fst (concat_merged other this h)"
  let ?g = "snd (concat_merged other this h)"
  let ?g1 = "upd_schema ?nx (\<lambda>s. s\<lparr>s_mutate := True\<rparr>) ?g"
  have "list_all (\<lambda>fn. valid_config (OPTIONS fn)) (tests_of ?g1 other)"
    using assms(2)
    by (simp add: tests_of_def upd_schema_def concat_merged_arrays clone_def cloneDeepWith_def Let_def)
  from forEach_test_succeeds[OF this] obtain u h' where
    "forEach_test (tests_of ?g1 other) ?nx ?g1 = Inr (u, h')" by blast
  then have "\<exists>u h'. withMutation (\<lambda>n g. forEach_test (tests_of g other) n g) ?nx ?g = Inr (u, h')"
    by (simp add: withMutation_def Let_def)
  then show ?thesis
    by (auto simp: concat_unfold[OF False assms(1)])
qed

lemma test_mutating_store:
  assumes "s_mutate (schemas h this)" and "test opts this h = Inr (n, h')"
  shows "tables h' = (tables h)(s_exclusive (schemas h this) :=
            flag_name (createValidation opts) (tables h (s_exclusive (schemas h this))))"
    and "\<forall>a. a \<noteq> nxt h \<longrightarrow> arrays h' a = arrays h a"
    and "nxt h' = nxt h + 1"
  using assms
  by (auto simp: test_def clone_def Let_def upd_schema_def flag_name_def createValidation_def
      split: if_splits)

lemma forEach_test_store:
  assumes "s_mutate (schemas h next)" and "forEach_test fns next h = Inr (u, h')"
  shows "s_exclusive (schemas h' next) = s_exclusive (schemas h next) \<and>
         (\<forall>a. a \<noteq> next \<longrightarrow> schemas h' a = schemas h a) \<and>
         tables h' = (tables h)(s_exclusive (schemas h next) :=
            fold flag_name fns (tables h (s_exclusive (schemas h next)))) \<and>
         (\<forall>a<nxt h. arrays h' a = arrays h a) \<and> nxt h \<le> nxt h'"
  using assms
proof (induction fns arbitrary: h)
  case Nil
  then show ?case by simp
next
  case (Cons fn fns)
  from Cons.prems(2) obtain r g where t: "test (OPTIONS fn) next h = Inr (r, g)"
    and rest: "forEach_test fns next g = Inr (u, h')"
    by (auto split: sum.splits)
  note m = test_mutating[OF Cons.prems(1) t]
  note st = test_mutating_store[OF Cons.prems(1) t]
  have gm: "s_mutate (schemas g next)" using m Cons.prems(1) by simp
  have ge: "s_exclusive (schemas g next) = s_exclusive (schemas h next)" using m by simp
  from Cons.IH[OF gm rest] m st ge show ?case
    by (auto simp: createValidation_def flag_name_def)
qed

text \<open>
  What \<^verbatim>\<open>concat\<close> leaves of the receiver: the node and the contents of its tests
  array are as before, and its exclusivity table has taken the flags of the argument's
  tests, since the result shares that table and the re-registration writes into it.
\<close>

lemma concat_receiver_store:
  assumes ok: "concat (Some other) this h = Inr (next, h')"
    and ne: "other \<noteq> this"
    and alloc: "allocated h this" "allocated h other"
    and nomut: "\<not> s_mutate (schemas h other)"
  shows "exclusive_of h' this = fold flag_name (tests_of h other) (exclusive_of h this)"
    and "tests_of h' this = tests_of h this"
    and "schemas h' this = schemas h this"
proof -
  define n where "n = nxt h"
  define h1 where "h1 = snd (clone other h)"
  define h7 where "h7 = snd (concat_merged other this h)"
  define g where "g = upd_schema n (\<lambda>s. s\<lparr>s_mutate := True\<rparr>) h7"
  have c: "clone other h = (n, h1)"
    using nomut by (simp add: clone_def cloneDeepWith_def Let_def n_def h1_def)
  have nn: "n \<noteq> this" "n \<noteq> other" using alloc by (simp_all add: n_def allocated_def)
  have lt: "s_tests (schemas h this) < n" "s_exclusive (schemas h this) < n"
    "s_tests (schemas h other) < n"
    using alloc by (simp_all add: n_def allocated_def)
  have old: "schemas h1 this = schemas h this" "schemas h1 other = schemas h other"
    using nomut nn by (simp_all add: h1_def clone_def cloneDeepWith_def Let_def n_def)
  have st1: "tables h1 = (tables h)(n + 1 := tables h (s_exclusive (schemas h other)))"
    "arrays h1 = (arrays h)(n + 2 := arrays h (s_tests (schemas h other)))" "nxt h1 = n + 3"
    using nomut by (simp_all add: h1_def clone_def cloneDeepWith_def Let_def n_def)
  have al: "concat_allowed other this h"
    using ok ne by (auto simp: concat_def concat_allowed_def split: if_splits)
  have f: "fst (concat_merged other this h) = n"
    by (simp add: concat_merged_fst c)
  have s7: "schemas h7 this = schemas h this" "schemas h7 other = schemas h other"
    "s_exclusive (schemas h7 n) = s_exclusive (schemas h this)"
    "tables h7 = tables h1" "arrays h7 = arrays h1" "nxt h7 = nxt h1"
    using nn old
    by (simp_all add: h7_def concat_merged_def c Let_def merge_def upd_schema_def upd_spec_def)
  have sg: "schemas g this = schemas h this" "schemas g other = schemas h other"
    "s_exclusive (schemas g n) = s_exclusive (schemas h this)" "s_mutate (schemas g n)"
    "tables g = tables h1" "arrays g = arrays h1" "nxt g = n + 3"
    using nn s7 st1 by (simp_all add: g_def upd_schema_def)
  have tg: "tests_of g other = tests_of h other"
    using sg st1 lt by (simp add: tests_of_def)
  from ok obtain u h8 where w: "forEach_test (tests_of h other) n g = Inr (u, h8)"
    and h': "h' = upd_schema n (\<lambda>s. s\<lparr>s_mutate := s_mutate (schemas h7 n)\<rparr>) h8"
    using tg
    by (auto simp: concat_unfold[OF ne al] f withMutation_def Let_def h7_def[symmetric]
        g_def[symmetric] split: sum.splits)
  note fe = forEach_test_store[OF sg(4) w]
  have sch: "schemas h' this = schemas h this"
    using fe nn sg by (simp add: h' upd_schema_def)
  show "schemas h' this = schemas h this" by (rule sch)
  have tb: "tables h' = (tables h1)(s_exclusive (schemas h this) :=
              fold flag_name (tests_of h other) (tables h1 (s_exclusive (schemas h this))))"
    using fe sg by (simp add: h' upd_schema_def)
  show "exclusive_of h' this = fold flag_name (tests_of h other) (exclusive_of h this)"
    using lt by (simp add: exclusive_of_def sch tb st1)
  have "arrays h' (s_tests (schemas h this)) = arrays g (s_tests (schemas h this))"
    using fe sg lt by (simp add: h' upd_schema_def)
  then show "tests_of h' this = tests_of h this"
    using lt by (simp add: tests_of_def sch sg st1)
qed

lemmas pair_simps = two_schemas_def mixed_default_def mixed_test_def default_option_def
  receiver_def argument_def store_def default_set_def test_def cfg_def store_simps
  allocated_def concat_allowed_def valid_config_def well_formed_pair_def

lemma default_5_and_spec_default_1_wf: "well_formed_pair default_5_and_spec_default_1"
  by (simp add: default_5_and_spec_default_1_def pair_simps)

lemma default_5_and_spec_default_1_fields: 
  "hasDefault (s_spec (schemas (store default_5_and_spec_default_1) (argument default_5_and_spec_default_1))) = False"
  "default_val (s_spec (schemas (store default_5_and_spec_default_1) (argument default_5_and_spec_default_1))) = VNum 1"
  "default_val (s_spec (schemas (store default_5_and_spec_default_1) (receiver default_5_and_spec_default_1))) = VNum 5"
  by (simp_all add: default_5_and_spec_default_1_def pair_simps)

lemma stacked_x_and_exclusive_x_wf: "well_formed_pair stacked_x_and_exclusive_x"
  by (simp add: stacked_x_and_exclusive_x_def pair_simps)

lemma stacked_x_and_exclusive_x_fields:
  "exclusive_of (store stacked_x_and_exclusive_x) (receiver stacked_x_and_exclusive_x) ''x'' = Some False"
  "tests_of (store stacked_x_and_exclusive_x) (argument stacked_x_and_exclusive_x) = 
     [createValidation (with_message (cfg ''x'' True 2))]"
  by (simp_all add: stacked_x_and_exclusive_x_def pair_simps with_message_def)

lemma concat_of_succeeds:
  "well_formed_pair x \<Longrightarrow> \<exists>next h'. concat_of x = Inr (next, h')"
  unfolding concat_of_def well_formed_pair_def by (blast intro: concat_succeeds)

lemma default_1_and_mixed_wf: "well_formed_pair default_1_and_mixed"
  by (simp add: default_1_and_mixed_def pair_simps)

lemma default_1_and_mixed_fields: 
  "hasDefault (s_spec (schemas (store default_1_and_mixed) (argument default_1_and_mixed))) = False"
  "default_val (s_spec (schemas (store default_1_and_mixed) (argument default_1_and_mixed))) = Undefined"
  "default_val (s_spec (schemas (store default_1_and_mixed) (receiver default_1_and_mixed))) = VNum 1"
  by (simp_all add: default_1_and_mixed_def pair_simps)

lemma default_1_and_default_2_wf: "well_formed_pair default_1_and_default_2"
  by (simp add: default_1_and_default_2_def pair_simps)

lemma default_1_and_default_2_fields: 
  "hasDefault (s_spec (schemas (store default_1_and_default_2) (argument default_1_and_default_2))) = True"
  "default_val (s_spec (schemas (store default_1_and_default_2) (argument default_1_and_default_2))) = VNum 2"
  "default_val (s_spec (schemas (store default_1_and_default_2) (receiver default_1_and_default_2))) = VNum 1"
  by (simp_all add: default_1_and_default_2_def pair_simps)

lemma arrays_1_and_2_wf: "well_formed_pair arrays_1_and_2"
  by (simp add: arrays_1_and_2_def pair_simps)

lemma arrays_1_and_2_fields:
  "hasDefault (s_spec (schemas (store arrays_1_and_2) (argument arrays_1_and_2))) = False"
  "default_val (s_spec (schemas (store arrays_1_and_2) (argument arrays_1_and_2))) = VArr [VNum 2]"
  "default_val (s_spec (schemas (store arrays_1_and_2) (receiver arrays_1_and_2))) = VArr [VNum 1]"
  by (simp_all add: arrays_1_and_2_def pair_simps)

lemma objects_a1_b3_and_a2_wf: "well_formed_pair objects_a1_b3_and_a2"
  by (simp add: objects_a1_b3_and_a2_def pair_simps)

lemma objects_a1_b3_and_a2_fields:
  "hasDefault (s_spec (schemas (store objects_a1_b3_and_a2) (argument objects_a1_b3_and_a2)))
     = False"
  "default_val (s_spec (schemas (store objects_a1_b3_and_a2) (argument objects_a1_b3_and_a2)))
     = VObj [(''a'', VNum 2)]"
  "default_val (s_spec (schemas (store objects_a1_b3_and_a2) (receiver objects_a1_b3_and_a2)))
     = VObj [(''a'', VNum 1), (''b'', VNum 3)]"
  by (simp_all add: objects_a1_b3_and_a2_def pair_simps)

text \<open>
  C2, as amended. For schemas A and B of one store whose \<^verbatim>\<open>concat\<close> succeeds, B not
  inside a mutation window unless it is A itself: the stored default of
  \<^verbatim>\<open>A.concat(B)\<close> is B's stored default if B is A or B has \<^verbatim>\<open>hasDefault\<close> set
  (also when that default is \<^verbatim>\<open>undefined\<close>). Otherwise it is the deep merge of B's
  stored default over A's: A's if B's is \<^verbatim>\<open>undefined\<close>; for two arrays A's entries
  followed by B's; for two plain objects their merge key by key, where a key of B's keeps
  its place and its value is merged with A's value for that key, and the keys that only A
  has follow; B's in every other case.
\<close>

theorem concat_default:
  assumes "concat (Some other) this h = Inr (next, h')"
    and "this < nxt h" and "other < nxt h"
    and "other \<noteq> this \<longrightarrow> \<not> s_mutate (schemas h other)"
  shows "default_val (s_spec (schemas h' next)) =
           (if other = this \<or> hasDefault (s_spec (schemas h other))
            then default_val (s_spec (schemas h other))
            else if default_val (s_spec (schemas h other)) = Undefined
            then default_val (s_spec (schemas h this))
            else case (default_val (s_spec (schemas h other)),
                       default_val (s_spec (schemas h this))) of
                   (VArr bs, VArr ys) \<Rightarrow> VArr (ys @ bs)
                 | (VObj bf, VObj af) \<Rightarrow> VObj (merge_fields bf af)
                 | _ \<Rightarrow> default_val (s_spec (schemas h other)))
       \<and> (\<forall>bf af k. distinct (map fst af) \<longrightarrow>
             map_of (merge_fields bf af) k =
               (case map_of bf k of
                  None \<Rightarrow> map_of af k
                | Some bv \<Rightarrow>
                    (case map_of af k of
                       None \<Rightarrow> Some bv
                     | Some av \<Rightarrow> Some (merge_value bv av))) \<and>
             map fst (merge_fields bf af)
               = map fst bf @ filter (\<lambda>k. k \<notin> set (map fst bf)) (map fst af))"
proof (intro conjI allI impI)
  show "default_val (s_spec (schemas h' next)) =
           (if other = this \<or> hasDefault (s_spec (schemas h other))
            then default_val (s_spec (schemas h other))
            else if default_val (s_spec (schemas h other)) = Undefined
            then default_val (s_spec (schemas h this))
            else case (default_val (s_spec (schemas h other)),
                       default_val (s_spec (schemas h this))) of
                   (VArr bs, VArr ys) \<Rightarrow> VArr (ys @ bs)
                 | (VObj bf, VObj af) \<Rightarrow> VObj (merge_fields bf af)
                 | _ \<Rightarrow> default_val (s_spec (schemas h other)))"
  proof (cases "other = this")
    case True
    with assms(1) show ?thesis by (simp add: concat_def)
  next
    case False
    with assms have "\<not> s_mutate (schemas h other)" by simp
    from concat_default_val[OF assms(1) False assms(2,3) this] False show ?thesis
      by (simp only: merge_value_cases if_False simp_thms)
  qed
next
  fix bf af :: "(string \<times> jsval) list" and k
  assume d: "distinct (map fst af)"
  show "map_of (merge_fields bf af) k =
               (case map_of bf k of
                  None \<Rightarrow> map_of af k
                | Some bv \<Rightarrow>
                    (case map_of af k of
                       None \<Rightarrow> Some bv
                     | Some av \<Rightarrow> Some (merge_value bv av)))"
    using d by (rule map_of_merge_fields)
  show "map fst (merge_fields bf af)
          = map fst bf @ filter (\<lambda>k. k \<notin> set (map fst bf)) (map fst af)"
    using d by (rule keys_merge_fields)
qed

text \<open>
  \<^verbatim>\<open>mixed().default(1).concat(mixed())\<close> has the default 1, and
  \<^verbatim>\<open>mixed().default(1).concat(mixed().default(2))\<close> has the default 2. With B made
  by \<^verbatim>\<open>new MixedSchema({spec: {default: d}})\<close>, which does not set \<^verbatim>\<open>hasDefault\<close>:
  the arrays [1] of A and [2] of B give [1, 2], and the objects {a: 1, b: 3} of A and
  {a: 2} of B give {a: 2, b: 3}.
\<close>

theorem concat_default_witness:
  "\<not> isl (concat_of default_1_and_mixed) \<and>
   result_default (concat_of default_1_and_mixed) = VNum 1 \<and>
   \<not> isl (concat_of default_1_and_default_2) \<and>
   result_default (concat_of default_1_and_default_2) = VNum 2 \<and>
   \<not> isl (concat_of arrays_1_and_2) \<and>
   result_default (concat_of arrays_1_and_2) = VArr [VNum 1, VNum 2] \<and>
   \<not> isl (concat_of objects_a1_b3_and_a2) \<and>
   result_default (concat_of objects_a1_b3_and_a2) = VObj [(''a'', VNum 2), (''b'', VNum 3)]"
proof -
  obtain n1 g1 where r1: "concat_of default_1_and_mixed = Inr (n1, g1)"
    using concat_of_succeeds[OF default_1_and_mixed_wf] by blast
  obtain n2 g2 where r2: "concat_of default_1_and_default_2 = Inr (n2, g2)"
    using concat_of_succeeds[OF default_1_and_default_2_wf] by blast
  obtain n3 g3 where r3: "concat_of arrays_1_and_2 = Inr (n3, g3)"
    using concat_of_succeeds[OF arrays_1_and_2_wf] by blast
  obtain n4 g4 where r4: "concat_of objects_a1_b3_and_a2 = Inr (n4, g4)"
    using concat_of_succeeds[OF objects_a1_b3_and_a2_wf] by blast
  have "default_val (s_spec (schemas g1 n1)) = VNum 1"
    using concat_default[OF r1[unfolded concat_of_def]] default_1_and_mixed_wf
      default_1_and_mixed_fields
    by (simp add: well_formed_pair_def allocated_def)
  moreover have "default_val (s_spec (schemas g2 n2)) = VNum 2"
    using concat_default[OF r2[unfolded concat_of_def]] default_1_and_default_2_wf
      default_1_and_default_2_fields
    by (simp add: well_formed_pair_def allocated_def)
  moreover have "default_val (s_spec (schemas g3 n3)) = VArr [VNum 1, VNum 2]"
    using concat_default[OF r3[unfolded concat_of_def]] arrays_1_and_2_wf
      arrays_1_and_2_fields
    by (simp add: well_formed_pair_def allocated_def)
  moreover have "default_val (s_spec (schemas g4 n4)) = VObj [(''a'', VNum 2), (''b'', VNum 3)]"
    using concat_default[OF r4[unfolded concat_of_def]] objects_a1_b3_and_a2_wf
      objects_a1_b3_and_a2_fields
    by (simp add: well_formed_pair_def allocated_def)
  ultimately show ?thesis
    by (simp add: r1 r2 r3 r4 result_default_def)
qed

text \<open>
  B is \<^verbatim>\<open>new MixedSchema({spec: {default: 1}})\<close>, so \<^verbatim>\<open>hasDefault\<close> is false;
  A is \<^verbatim>\<open>mixed().default(5)\<close>. The default of \<^verbatim>\<open>A.concat(B)\<close> is 1, not A's 5.
\<close>

theorem concat_default_counterexample:
  "\<not> hasDefault (s_spec (schemas (store default_5_and_spec_default_1)
                              (argument default_5_and_spec_default_1))) \<and>
   default_val (s_spec (schemas (store default_5_and_spec_default_1)
                          (receiver default_5_and_spec_default_1))) = VNum 5 \<and>
   \<not> isl (concat_of default_5_and_spec_default_1) \<and>
   result_default (concat_of default_5_and_spec_default_1) = VNum 1"
proof -
  obtain n1 g1 where r1: "concat_of default_5_and_spec_default_1 = Inr (n1, g1)"
    using concat_of_succeeds[OF default_5_and_spec_default_1_wf] by blast
  have "default_val (s_spec (schemas g1 n1)) = VNum 1"
    using concat_default_val[OF r1[unfolded concat_of_def]] default_5_and_spec_default_1_wf
      default_5_and_spec_default_1_fields
    by (simp add: well_formed_pair_def allocated_def)
  then show ?thesis
    by (simp add: r1 result_default_def default_5_and_spec_default_1_fields)
qed

text \<open>
  C3 at a concrete input. A is \<^verbatim>\<open>mixed().test({name: 'x', test: f1})\<close> and B is
  \<^verbatim>\<open>mixed().test({name: 'x', exclusive: true, test: f2})\<close>. Before
  \<^verbatim>\<open>A.concat(B)\<close> the table of A flags x as not exclusive and a further
  non-exclusive test f3 stacks on f1; after the call the table of A flags x as
  exclusive and the same registration on A replaces f1.
\<close>

theorem concat_flags_receiver:
  "exclusive_of (store stacked_x_and_exclusive_x) (receiver stacked_x_and_exclusive_x) ''x''
     = Some False \<and>
   functions_after_test (cfg ''x'' False 3) (receiver stacked_x_and_exclusive_x)
       (store stacked_x_and_exclusive_x) = [Some (UserTest 1), Some (UserTest 3)] \<and>
   \<not> isl (concat_of stacked_x_and_exclusive_x) \<and>
   exclusive_of (snd (projr (concat_of stacked_x_and_exclusive_x)))
       (receiver stacked_x_and_exclusive_x) ''x'' = Some True \<and>
   functions_after_test (cfg ''x'' False 3) (receiver stacked_x_and_exclusive_x)
       (snd (projr (concat_of stacked_x_and_exclusive_x))) = [Some (UserTest 3)]"
proof -
  let ?a = "receiver stacked_x_and_exclusive_x"
  let ?h = "store stacked_x_and_exclusive_x"
  obtain n g where r: "concat_of stacked_x_and_exclusive_x = Inr (n, g)"
    using concat_of_succeeds[OF stacked_x_and_exclusive_x_wf] by blast
  have wf: "argument stacked_x_and_exclusive_x \<noteq> ?a" "allocated ?h ?a"
    "allocated ?h (argument stacked_x_and_exclusive_x)"
    "\<not> s_mutate (schemas ?h (argument stacked_x_and_exclusive_x))"
    using stacked_x_and_exclusive_x_wf by (simp_all add: well_formed_pair_def)
  note after = concat_receiver_store[OF r[unfolded concat_of_def] wf]
  have t0: "tests_of ?h ?a = [createValidation (with_message (cfg ''x'' False 1))]"
    by (simp add: stacked_x_and_exclusive_x_def pair_simps with_message_def)
  have e1: "exclusive_of g ?a ''x'' = Some True"
    by (simp add: after(1) stacked_x_and_exclusive_x_fields flag_name_def createValidation_def
        cfg_def truthy_def)
  obtain n0 g0 where b: "test (cfg ''x'' False 3) ?a ?h = Inr (n0, g0)"
    using test_succeeds[of "cfg ''x'' False 3" ?a ?h] by (auto simp: cfg_def)
  obtain n1 g1 where a: "test (cfg ''x'' False 3) ?a g = Inr (n1, g1)"
    using test_succeeds[of "cfg ''x'' False 3" ?a g] by (auto simp: cfg_def)
  have "map (\<lambda>fn. test_fn (OPTIONS fn)) (tests_of g0 n0) = [Some (UserTest 1), Some (UserTest 3)]"
    by (simp add: test_Inr_tests[OF b] t0 isExclusive_def stacked_x_and_exclusive_x_fields
        createValidation_def cfg_def
        truthy_def)
  then have "functions_after_test (cfg ''x'' False 3) ?a ?h
               = [Some (UserTest 1), Some (UserTest 3)]"
    by (simp add: functions_after_test_def b)
  moreover have "map (\<lambda>fn. test_fn (OPTIONS fn)) (tests_of g1 n1) = [Some (UserTest 3)]"
    using e1
    by (simp add: test_Inr_tests[OF a] after(2) t0 isExclusive_def createValidation_def cfg_def
        truthy_def)
  then have "functions_after_test (cfg ''x'' False 3) ?a g = [Some (UserTest 3)]"
    by (simp add: functions_after_test_def a)
  ultimately show ?thesis
    by (simp add: r e1 stacked_x_and_exclusive_x_fields)
qed

section \<open>clone\<close>

lemma nested_values_clone:
  assumes "\<not> s_mutate (schemas h this)"
  shows "nested_values (schemas (snd (clone this h)) (fst (clone this h)))
           = map (cloneValue this (fst (clone this h))) (nested_values (schemas h this))"
  using assms
  by (simp add: clone_def cloneDeepWith_def Let_def nested_values_def cloneRefSet_def
      cloneSpec_def split: option.splits)

lemma cloneValue_schema: "isSchema v \<Longrightarrow> v \<noteq> SchemaV this \<Longrightarrow> cloneValue this new v = v"
  by (simp add: cloneValue_def customizer_def)

lemma cloneDeepWith_unchanged: "unchanged_below (nxt h) h (snd (cloneDeepWith this h))"
  by (simp add: cloneDeepWith_def Let_def unchanged_below_def)

lemma clone_unchanged: "unchanged_below (nxt h) h (snd (clone this h))"
  by (simp add: clone_def cloneDeepWith_unchanged) (simp add: unchanged_below_def)

lemma test_unchanged:
  assumes "\<not> s_mutate (schemas h this)" and "test opts this h = Inr (n, h')"
  shows "unchanged_below (nxt h) h h'"
  using assms
  by (auto simp: test_def clone_def cloneDeepWith_def Let_def upd_schema_def unchanged_below_def
      split: if_splits)

lemma tests_of_unchanged:
  "unchanged_below n h h' \<Longrightarrow> a < n \<Longrightarrow> s_tests (schemas h a) < n \<Longrightarrow> tests_of h' a = tests_of h a"
  by (simp add: unchanged_below_def tests_of_def)

text \<open>
  C4, as amended. \<^verbatim>\<open>clone()\<close> returns the receiver itself, in an unchanged store, when
  the node is inside a mutation window, as it is for a call made through
  \<^verbatim>\<open>withMutation\<close>. Otherwise it returns a deep copy: a node at a fresh address whose
  tests array and exclusivity table are fresh objects with the receiver's contents, and no
  object in use before the call is changed. Every other field of the copy has the
  receiver's contents: the type tag and the type check, the dependencies, the transforms,
  the conditions, the label, the three synthesized tests, the spec with its default, the
  references of the two sets; the copy is outside any mutation window. The members of the
  two sets and the two metas are the receiver's, in the same order, except that the
  receiver itself, where it is nested in itself, is the copy; so every nested value that
  is a schema node other than the receiver itself is the identical node in the copy.
  Pushing onto the copy's tests array, or registering a test on the copy, leaves the
  receiver's tests as they were.
\<close>

theorem clone_copy:
  "(s_mutate (schemas h this) \<longrightarrow> clone this h = (this, h)) \<and>
   withMutation (\<lambda>s g. Inr (clone s g)) this h = Inr (this, h) \<and>
   (\<not> s_mutate (schemas h this) \<longrightarrow>
      fst (clone this h) = nxt h \<and>
      nxt h \<le> s_tests (schemas (snd (clone this h)) (fst (clone this h))) \<and>
      nxt h \<le> s_exclusive (schemas (snd (clone this h)) (fst (clone this h))) \<and>
      tests_of (snd (clone this h)) (fst (clone this h)) = tests_of h this \<and>
      exclusive_of (snd (clone this h)) (fst (clone this h)) = exclusive_of h this \<and>
      unchanged_below (nxt h) h (snd (clone this h)) \<and>
      s_type (schemas (snd (clone this h)) (fst (clone this h))) = s_type (schemas h this) \<and>
      s_typeCheck (schemas (snd (clone this h)) (fst (clone this h)))
        = s_typeCheck (schemas h this) \<and>
      s_deps (schemas (snd (clone this h)) (fst (clone this h))) = s_deps (schemas h this) \<and>
      s_transforms (schemas (snd (clone this h)) (fst (clone this h)))
        = s_transforms (schemas h this) \<and>
      s_conditions (schemas (snd (clone this h)) (fst (clone this h)))
        = s_conditions (schemas h this) \<and>
      s_label (schemas (snd (clone this h)) (fst (clone this h))) = s_label (schemas h this) \<and>
      s_typeError (schemas (snd (clone this h)) (fst (clone this h)))
        = s_typeError (schemas h this) \<and>
      s_whitelistError (schemas (snd (clone this h)) (fst (clone this h)))
        = s_whitelistError (schemas h this) \<and>
      s_blacklistError (schemas (snd (clone this h)) (fst (clone this h)))
        = s_blacklistError (schemas h this) \<and>
      \<not> s_mutate (schemas (snd (clone this h)) (fst (clone this h))) \<and>
      s_spec (schemas (snd (clone this h)) (fst (clone this h)))
        = (s_spec (schemas h this))
            \<lparr>meta := map_option (in_copy this (fst (clone this h)))
                       (meta (s_spec (schemas h this)))\<rparr> \<and>
      s_meta (schemas (snd (clone this h)) (fst (clone this h)))
        = map_option (in_copy this (fst (clone this h))) (s_meta (schemas h this)) \<and>
      rs_refs (s_whitelist (schemas (snd (clone this h)) (fst (clone this h))))
        = rs_refs (s_whitelist (schemas h this)) \<and>
      rs_refs (s_blacklist (schemas (snd (clone this h)) (fst (clone this h))))
        = rs_refs (s_blacklist (schemas h this)) \<and>
      rs_list (s_whitelist (schemas (snd (clone this h)) (fst (clone this h))))
        = map (in_copy this (fst (clone this h))) (rs_list (s_whitelist (schemas h this))) \<and>
      rs_list (s_blacklist (schemas (snd (clone this h)) (fst (clone this h))))
        = map (in_copy this (fst (clone this h))) (rs_list (s_blacklist (schemas h this))) \<and>
      length (nested_values (schemas (snd (clone this h)) (fst (clone this h))))
        = length (nested_values (schemas h this)) \<and>
      (\<forall>i<length (nested_values (schemas h this)).
         isSchema (nested_values (schemas h this) ! i) \<and>
         nested_values (schemas h this) ! i \<noteq> SchemaV this \<longrightarrow>
         nested_values (schemas (snd (clone this h)) (fst (clone this h))) ! i
           = nested_values (schemas h this) ! i) \<and>
      (allocated h this \<longrightarrow>
         (\<forall>t. tests_of (tests_push t (fst (clone this h)) (snd (clone this h))) this
                = tests_of h this) \<and>
         (\<forall>opts n h'. test opts (fst (clone this h)) (snd (clone this h)) = Inr (n, h') \<longrightarrow>
                tests_of h' this = tests_of h this)))"
proof (intro conjI impI allI)
  show "clone this h = (this, h)" if "s_mutate (schemas h this)"
    using that by (simp add: clone_def)
  show "withMutation (\<lambda>s g. Inr (clone s g)) this h = Inr (this, h)"
    by (simp add: withMutation_def Let_def clone_def upd_schema_def)
next
  assume nm: "\<not> s_mutate (schemas h this)"
  let ?c = "fst (clone this h)" and ?h = "snd (clone this h)"
  show c: "?c = nxt h" using nm by (simp add: clone_def cloneDeepWith_def Let_def)
  show "nxt h \<le> s_tests (schemas ?h ?c)" "nxt h \<le> s_exclusive (schemas ?h ?c)"
    using nm by (simp_all add: clone_def cloneDeepWith_def Let_def)
  show "tests_of ?h ?c = tests_of h this" by (rule tests_of_clone)
  show "exclusive_of ?h ?c = exclusive_of h this" by (rule exclusive_of_clone)
  show u: "unchanged_below (nxt h) h ?h" by (rule clone_unchanged)
  show "s_type (schemas ?h ?c) = s_type (schemas h this)"
    "s_typeCheck (schemas ?h ?c) = s_typeCheck (schemas h this)"
    "s_deps (schemas ?h ?c) = s_deps (schemas h this)"
    "s_transforms (schemas ?h ?c) = s_transforms (schemas h this)"
    "s_conditions (schemas ?h ?c) = s_conditions (schemas h this)"
    "s_label (schemas ?h ?c) = s_label (schemas h this)"
    "s_typeError (schemas ?h ?c) = s_typeError (schemas h this)"
    "s_whitelistError (schemas ?h ?c) = s_whitelistError (schemas h this)"
    "s_blacklistError (schemas ?h ?c) = s_blacklistError (schemas h this)"
    "\<not> s_mutate (schemas ?h ?c)"
    "rs_refs (s_whitelist (schemas ?h ?c)) = rs_refs (s_whitelist (schemas h this))"
    "rs_refs (s_blacklist (schemas ?h ?c)) = rs_refs (s_blacklist (schemas h this))"
    using nm by (simp_all add: clone_def cloneDeepWith_def Let_def cloneRefSet_def)
  have ic: "cloneValue this ?c = in_copy this ?c"
    by (auto simp: fun_eq_iff cloneValue_def customizer_def isSchema_def in_copy_def
        split: unknown.splits)
  show "s_spec (schemas ?h ?c)
          = (s_spec (schemas h this))
              \<lparr>meta := map_option (in_copy this ?c) (meta (s_spec (schemas h this)))\<rparr>"
    "s_meta (schemas ?h ?c) = map_option (in_copy this ?c) (s_meta (schemas h this))"
    "rs_list (s_whitelist (schemas ?h ?c))
       = map (in_copy this ?c) (rs_list (s_whitelist (schemas h this)))"
    "rs_list (s_blacklist (schemas ?h ?c))
       = map (in_copy this ?c) (rs_list (s_blacklist (schemas h this)))"
    using nm ic[symmetric]
    by (simp_all add: clone_def cloneDeepWith_def Let_def cloneRefSet_def cloneSpec_def)
  show "length (nested_values (schemas ?h ?c)) = length (nested_values (schemas h this))"
    by (simp add: nested_values_clone[OF nm])
  show "nested_values (schemas ?h ?c) ! i = nested_values (schemas h this) ! i"
    if "i < length (nested_values (schemas h this))"
      and "isSchema (nested_values (schemas h this) ! i) \<and>
           nested_values (schemas h this) ! i \<noteq> SchemaV this" for i
    using that by (simp add: nested_values_clone[OF nm] cloneValue_schema)
  have cm: "\<not> s_mutate (schemas ?h ?c)" "nxt ?h = nxt h + 3" "s_tests (schemas ?h ?c) = nxt h + 2"
    using nm by (simp_all add: clone_def cloneDeepWith_def Let_def)
  show "tests_of (tests_push t ?c ?h) this = tests_of h this" if "allocated h this" for t
  proof -
    have "tests_of ?h this = tests_of h this"
      using that by (intro tests_of_unchanged[OF u]) (simp_all add: allocated_def)
    moreover have "tests_of (tests_push t ?c ?h) this = tests_of ?h this"
      using that u cm by (simp add: tests_push_def tests_of_def allocated_def unchanged_below_def)
    ultimately show ?thesis by simp
  qed
  show "tests_of h' this = tests_of h this"
    if "allocated h this" and "test opts ?c ?h = Inr (n, h')" for opts n h'
  proof -
    have 1: "tests_of ?h this = tests_of h this"
      using that by (intro tests_of_unchanged[OF u]) (simp_all add: allocated_def)
    have "unchanged_below (nxt ?h) ?h h'" by (rule test_unchanged[OF cm(1) that(2)])
    then have "tests_of h' this = tests_of ?h this"
      using that(1) u cm
      by (intro tests_of_unchanged) (auto simp add: allocated_def unchanged_below_def)
    with 1 show ?thesis by simp
  qed
qed

lemmas self_listed_simps = self_listed_def oneOf_def oneOf_message_def RefSet_add_def RefSet_delete_def
  set_add_def set_delete_def store_simps nested_values_def cloneValue_def customizer_def isSchema_def

lemma self_listed_fields:
  "fst self_listed = 0"
  "nested_values (schemas (snd self_listed) 0) = [SchemaV 0]"
  "s_mutate (schemas (snd self_listed) 0) = False"
  "nxt (snd self_listed) = 3"
  by (simp_all add: self_listed_simps)

text \<open>
  A schema that lists itself, outside any mutation window: the nested value is a schema
  node, and in the copy it is the copy, not the identical node.
\<close>

theorem clone_copy_counterexample:
  "\<not> s_mutate (schemas (snd self_listed) (fst self_listed)) \<and>
   nested_values (schemas (snd self_listed) (fst self_listed)) = [SchemaV (fst self_listed)] \<and>
   isSchema (SchemaV (fst self_listed)) \<and>
   nested_values (schemas (snd (clone (fst self_listed) (snd self_listed)))
                    (fst (clone (fst self_listed) (snd self_listed))))
     = [SchemaV (fst (clone (fst self_listed) (snd self_listed)))] \<and>
   fst (clone (fst self_listed) (snd self_listed)) \<noteq> fst self_listed"
proof -
  have nm: "\<not> s_mutate (schemas (snd self_listed) 0)"
    by (simp add: self_listed_fields)
  have c: "fst (clone 0 (snd self_listed)) = 3"
    using nm by (simp add: clone_def cloneDeepWith_def Let_def self_listed_fields)
  show ?thesis
    using nested_values_clone[OF nm]
    by (simp add: self_listed_fields c cloneValue_def customizer_def isSchema_def)
qed

lemma nests_a_schema_fields:
  "fst nests_a_schema = 6"
  "nested_values (schemas (snd nests_a_schema) 6) = [SchemaV 0]"
  "s_mutate (schemas (snd nests_a_schema) 6) = False"
  "allocated (snd nests_a_schema) 6"
  "tests_of (snd nests_a_schema) 6 = []"
  by (simp_all add: nests_a_schema_def oneOf_def oneOf_message_def RefSet_add_def
      RefSet_delete_def set_add_def set_delete_def store_simps nested_values_def
      cloneValue_def customizer_def isSchema_def allocated_def)

text \<open>
  A schema that lists another schema: outside a mutation window the copy is a new node
  that lists the same schema and whose tests can be changed without touching the
  original's; inside a mutation window \<^verbatim>\<open>clone\<close> returns the schema itself.
\<close>

theorem clone_copy_witness:
  "\<not> s_mutate (schemas (snd nests_a_schema) (fst nests_a_schema)) \<and>
   allocated (snd nests_a_schema) (fst nests_a_schema) \<and>
   nested_values (schemas (snd nests_a_schema) (fst nests_a_schema)) = [SchemaV 0] \<and>
   fst (clone (fst nests_a_schema) (snd nests_a_schema)) \<noteq> fst nests_a_schema \<and>
   nested_values (schemas (snd (clone (fst nests_a_schema) (snd nests_a_schema)))
                    (fst (clone (fst nests_a_schema) (snd nests_a_schema)))) ! 0 = SchemaV 0 \<and>
   tests_of (tests_push (createValidation (cfg ''x'' False 1))
               (fst (clone (fst nests_a_schema) (snd nests_a_schema)))
               (snd (clone (fst nests_a_schema) (snd nests_a_schema))))
     (fst nests_a_schema) = [] \<and>
   (\<exists>n h'. test (cfg ''x'' False 1) (fst (clone (fst nests_a_schema) (snd nests_a_schema)))
              (snd (clone (fst nests_a_schema) (snd nests_a_schema))) = Inr (n, h') \<and>
            tests_of h' (fst nests_a_schema) = []) \<and>
   s_mutate (schemas (enter_mutation (fst nests_a_schema) (snd nests_a_schema))
               (fst nests_a_schema)) \<and>
   clone (fst nests_a_schema) (enter_mutation (fst nests_a_schema) (snd nests_a_schema))
     = (fst nests_a_schema, enter_mutation (fst nests_a_schema) (snd nests_a_schema))"
proof -
  let ?s = "fst nests_a_schema" and ?h = "snd nests_a_schema"
  let ?c = "fst (clone ?s ?h)" and ?g = "snd (clone ?s ?h)"
  have nm: "\<not> s_mutate (schemas ?h ?s)" and al: "allocated ?h ?s"
    and nv: "nested_values (schemas ?h ?s) = [SchemaV 0]" and ts: "tests_of ?h ?s = []"
    by (simp_all add: nests_a_schema_fields)
  have m: "s_mutate (schemas (enter_mutation ?s ?h) ?s)"
    by (simp add: enter_mutation_def upd_schema_def)
  obtain n h' where t: "test (cfg ''x'' False 1) ?c ?g = Inr (n, h')"
    using test_succeeds[of "cfg ''x'' False 1" ?c ?g] by (auto simp: cfg_def)
  have sch: "isSchema (nested_values (schemas ?h ?s) ! 0) \<and>
             nested_values (schemas ?h ?s) ! 0 \<noteq> SchemaV ?s"
    by (simp add: nests_a_schema_fields isSchema_def)
  have len: "0 < length (nested_values (schemas ?h ?s))"
    by (simp add: nv)
  note cc = clone_copy[where h = ?h and this = ?s]
  from cc nm have fresh: "?c = nxt ?h" by blast
  with al have 1: "?c \<noteq> ?s" by (simp add: allocated_def)
  from cc nm len sch have "nested_values (schemas ?g ?c) ! 0 = nested_values (schemas ?h ?s) ! 0"
    by blast
  then have 2: "nested_values (schemas ?g ?c) ! 0 = SchemaV 0" by (simp add: nv)
  from cc nm al
  have "tests_of (tests_push (createValidation (cfg ''x'' False 1)) ?c ?g) ?s = tests_of ?h ?s"
    by blast
  then have 3: "tests_of (tests_push (createValidation (cfg ''x'' False 1)) ?c ?g) ?s = []"
    by (simp add: ts)
  from cc nm al t have "tests_of h' ?s = tests_of ?h ?s"
    by blast
  then have 4: "tests_of h' ?s = []"
    by (simp add: ts)
  from clone_copy[where h = "enter_mutation ?s ?h" and this = ?s] m
  have 5: "clone ?s (enter_mutation ?s ?h) = (?s, enter_mutation ?s ?h)" by blast
  from nm al nv 1 2 3 4 5 m t show ?thesis by blast
qed

section \<open>resolve\<close>



lemma unchanged_below_mono: "unchanged_below m h g \<Longrightarrow> n \<le> m \<Longrightarrow> unchanged_below n h g"
  by (simp add: unchanged_below_def)

































section \<open>oneOf and notOneOf\<close>












lemmas oneOf_simps = one_two_three_not_two_def one_two_three_def oneOf_def oneOf_message_def
  notOneOf_def notOneOf_message_def RefSet_add_def RefSet_delete_def set_add_def set_delete_def
  cloneValue_def customizer_def isSchema_def store_simps









section \<open>The order of validation\<close>

lemma run_each_prefix: "\<exists>rest. ts = snd (run_each run ee ts) @ rest"
  by (induction ts) (auto split: option.splits)

lemma run_each_all_pass:
  "(fst (run_each run ee ts) = []) = (\<forall>t\<in>set ts. run t = None)"
  by (induction ts) (auto split: option.splits)

lemma run_each_complete: "fst (run_each run ee ts) = [] \<Longrightarrow> snd (run_each run ee ts) = ts"
  by (induction ts) (auto split: option.splits if_splits)

lemma run_each_first: "ee \<Longrightarrow> fst (run_each run ee ts) \<noteq> [] \<Longrightarrow> \<exists>f. fst (run_each run ee ts) = [f]"
  by (induction ts) (auto split: option.splits)

lemma runTests_fst: "fst (runTests run ee ts) = (if fst (run_each run ee ts) = [] then None
    else Some (ValidationError (fst (run_each run ee ts))))"
  by (simp add: runTests_def case_prod_unfold Let_def)

lemma runTests_snd: "snd (runTests run ee ts) = snd (run_each run ee ts)"
  by (simp add: runTests_def case_prod_unfold Let_def)

lemma internal_validate_batches:
  "internal_validate e v0 options this h =
     (case fst (initial_batch e v0 options this h) of
        Some x \<Rightarrow> ((Some x, validate_value e options (schemas h this) v0),
                   map (Pair Initial) (snd (initial_batch e v0 options this h)))
      | None \<Rightarrow> ((fst (user_batch e v0 options this h),
                   validate_value e options (schemas h this) v0),
                  map (Pair Initial) (snd (initial_batch e v0 options this h)) @
                  map (Pair User) (snd (user_batch e v0 options this h))))"
  by (simp add: internal_validate_def initial_batch_def user_batch_def validate_run_def Let_def
      case_prod_unfold split: option.splits)

text \<open>
  C9. The initial batch that \<^verbatim>\<open>_validate\<close> builds is made of the node's
  type-error test, whitelist-error test and blacklist-error test, those of the three that
  are present, in that order. The tests that \<^verbatim>\<open>_validate\<close> runs are first tests of
  the initial batch and then, only if the initial batch reported no failure, tests of the
  queue; both batches are run in order under the same abort-early flag. If the initial
  batch reported no failure it ran all of its tests and the outcome is the queue's. If a
  test of the initial batch fails, the outcome is the initial batch's error and no test of
  the queue is run, whatever the flag; with abort-early set that error holds a single
  failure.
\<close>

theorem validate_order:
  "initialTests (schemas h this)
     = present [s_typeError (schemas h this), s_whitelistError (schemas h this),
                s_blacklistError (schemas h this)] \<and>
   snd (internal_validate e v0 options this h)
     = map (Pair Initial) (snd (initial_batch e v0 options this h)) @
       (if fst (initial_batch e v0 options this h) = None
        then map (Pair User) (snd (user_batch e v0 options this h)) else []) \<and>
   (\<exists>rest. initialTests (schemas h this) = snd (initial_batch e v0 options this h) @ rest) \<and>
   (\<exists>rest. tests_of h this = snd (user_batch e v0 options this h) @ rest) \<and>
   (fst (initial_batch e v0 options this h) = None \<longrightarrow>
      snd (initial_batch e v0 options this h) = initialTests (schemas h this) \<and>
      fst (fst (internal_validate e v0 options this h)) = fst (user_batch e v0 options this h)) \<and>
   ((\<exists>t\<in>set (initialTests (schemas h this)). validate_run e v0 options this h t \<noteq> None) \<longrightarrow>
      fst (initial_batch e v0 options this h) \<noteq> None \<and>
      fst (fst (internal_validate e v0 options this h)) = fst (initial_batch e v0 options this h) \<and>
      (\<forall>t. (User, t) \<notin> set (snd (internal_validate e v0 options this h))) \<and>
      (validate_abortEarly options (schemas h this) \<longrightarrow>
         (\<exists>f. fst (fst (internal_validate e v0 options this h)) = Some (ValidationError [f]))))"
proof (intro conjI impI)
  let ?run = "validate_run e v0 options this h"
  let ?ee = "validate_abortEarly options (schemas h this)"
  show "initialTests (schemas h this)
     = present [s_typeError (schemas h this), s_whitelistError (schemas h this),
                s_blacklistError (schemas h this)]"
    by (simp add: initialTests_def present_def List.map_filter_simps split: option.splits)
  show "snd (internal_validate e v0 options this h)
     = map (Pair Initial) (snd (initial_batch e v0 options this h)) @
       (if fst (initial_batch e v0 options this h) = None
        then map (Pair User) (snd (user_batch e v0 options this h)) else [])"
    by (simp add: internal_validate_batches split: option.splits)
  show "\<exists>rest. initialTests (schemas h this) = snd (initial_batch e v0 options this h) @ rest"
    unfolding initial_batch_def runTests_snd by (rule run_each_prefix)
  show "\<exists>rest. tests_of h this = snd (user_batch e v0 options this h) @ rest"
    unfolding user_batch_def runTests_snd by (rule run_each_prefix)
  show "snd (initial_batch e v0 options this h) = initialTests (schemas h this)"
    if "fst (initial_batch e v0 options this h) = None"
    using that unfolding initial_batch_def runTests_snd runTests_fst
    by (auto intro: run_each_complete split: if_splits)
  show "fst (fst (internal_validate e v0 options this h)) = fst (user_batch e v0 options this h)"
    if "fst (initial_batch e v0 options this h) = None"
    using that by (simp add: internal_validate_batches)
next
  assume f: "\<exists>t\<in>set (initialTests (schemas h this)). validate_run e v0 options this h t \<noteq> None"
  let ?fs = "fst (run_each (validate_run e v0 options this h)
                (validate_abortEarly options (schemas h this)) (initialTests (schemas h this)))"
  from f have ne: "?fs \<noteq> []"
    using run_each_all_pass[of "validate_run e v0 options this h"
        "validate_abortEarly options (schemas h this)" "initialTests (schemas h this)"]
    by auto
  then have ib: "fst (initial_batch e v0 options this h) = Some (ValidationError ?fs)"
    by (simp add: initial_batch_def runTests_fst)
  show "fst (initial_batch e v0 options this h) \<noteq> None" by (simp add: ib)
  show "fst (fst (internal_validate e v0 options this h)) = fst (initial_batch e v0 options this h)"
    by (simp add: internal_validate_batches ib)
  show "\<forall>t. (User, t) \<notin> set (snd (internal_validate e v0 options this h))"
    by (auto simp add: internal_validate_batches ib)
  show "\<exists>f. fst (fst (internal_validate e v0 options this h)) = Some (ValidationError [f])"
    if "validate_abortEarly options (schemas h this)"
    using run_each_first[OF that ne] by (auto simp add: internal_validate_batches ib)
qed

lemma with_user_test_fields:
  "s_transforms (schemas (snd with_user_test) (fst with_user_test)) = []"
  "s_spec (schemas (snd with_user_test) (fst with_user_test)) = spread_spec no_spec_options"
  "s_typeCheck (schemas (snd with_user_test) (fst with_user_test)) = typeCheck"
  "initialTests (schemas (snd with_user_test) (fst with_user_test))
     = [typeError_validation, oneOf_validation, notOneOf_validation]"
  "tests_of (snd with_user_test) (fst with_user_test)
     = [createValidation (with_message (cfg ''u'' False 1))]"
  "whitelist_of with_user_test = \<lparr>rs_list = [Val (VNum 1), Val (VNum 3)], rs_refs = []\<rparr>"
  "blacklist_of with_user_test = \<lparr>rs_list = [Val (VNum 2)], rs_refs = []\<rparr>"
  by (simp_all add: with_user_test_def test_def cfg_def with_message_def oneOf_simps
      whitelist_of_def blacklist_of_def initialTests_def typeError_validation_def
      oneOf_validation_def notOneOf_validation_def)

lemma validate_run_with_user_test:
  "o_strict opts = None \<Longrightarrow> v \<noteq> Undefined \<Longrightarrow>
   validate_run plain_env v opts (fst with_user_test) (snd with_user_test) t
     = (if (case test_fn (OPTIONS t) of
              None \<Rightarrow> True
            | Some TypeErrorTest \<Rightarrow> True
            | Some OneOfTest \<Rightarrow> v = VNum 1 \<or> v = VNum 3
            | Some NotOneOfTest \<Rightarrow> v \<noteq> VNum 2
            | Some RequiredTest \<Rightarrow> isPresent v
            | Some (UserTest k) \<Rightarrow> True)
        then None else Some (failure_of t v))"
  using with_user_test_fields(6,7)
  by (auto simp: validate_run_def validate_value_def validate_strict_def internal_cast_def
      run_validation_def Let_def typeError_test_def oneOf_test_def notOneOf_test_def
      isType_def with_user_test_fields typeCheck_def RefSet_has_def plain_env_def
      failure_of_def whitelist_of_def blacklist_of_def spread_spec_def no_spec_options_def
      or_else_def split: option.splits testfn.splits)

lemma with_user_test_abortEarly:
  "validate_abortEarly no_options (schemas (snd with_user_test) (fst with_user_test))"
  by (simp add: validate_abortEarly_def no_options_def with_user_test_fields spread_spec_def
      no_spec_options_def or_else_def)

lemma with_user_test_batches:
  "initial_batch plain_env (VNum 2) no_options (fst with_user_test) (snd with_user_test)
     = (Some (ValidationError [failure_of oneOf_validation (VNum 2)]),
        [typeError_validation, oneOf_validation])"
  "initial_batch plain_env (VNum 1) no_options (fst with_user_test) (snd with_user_test)
     = (None, [typeError_validation, oneOf_validation, notOneOf_validation])"
  "user_batch plain_env (VNum 1) no_options (fst with_user_test) (snd with_user_test)
     = (None, [createValidation (with_message (cfg ''u'' False 1))])"
  by (simp_all add: initial_batch_def user_batch_def runTests_def with_user_test_abortEarly
      with_user_test_fields validate_run_with_user_test no_options_def[THEN arg_cong[of _ _ o_strict]]
      typeError_validation_def oneOf_validation_def notOneOf_validation_def createValidation_def
      with_message_def cfg_def)

lemma only_user_test_fields:
  "s_transforms (schemas (snd only_user_test) (fst only_user_test)) = []"
  "s_spec (schemas (snd only_user_test) (fst only_user_test)) = spread_spec no_spec_options"
  "s_typeCheck (schemas (snd only_user_test) (fst only_user_test)) = typeCheck"
  "s_typeError (schemas (snd only_user_test) (fst only_user_test)) = Some typeError_validation"
  "s_whitelistError (schemas (snd only_user_test) (fst only_user_test)) = None"
  "s_blacklistError (schemas (snd only_user_test) (fst only_user_test)) = None"
  "tests_of (snd only_user_test) (fst only_user_test)
     = [createValidation (with_message (cfg ''u'' False 1))]"
  "s_blacklist (schemas (snd only_user_test) (fst only_user_test)) = RefSet_new"
  by (simp_all add: only_user_test_def mixed_test_def test_def cfg_def with_message_def
      store_simps typeError_validation_def)

lemma validate_run_only_user_test:
  "test_fn (OPTIONS t) \<noteq> Some OneOfTest \<Longrightarrow>
   validate_run plain_env (VNum 1) no_options (fst only_user_test) (snd only_user_test) t = None"
  by (auto simp: validate_run_def validate_value_def validate_strict_def internal_cast_def
      run_validation_def Let_def typeError_test_def notOneOf_test_def isType_def
      only_user_test_fields typeCheck_def RefSet_has_def plain_env_def spread_spec_def
      no_spec_options_def or_else_def no_options_def RefSet_new_def isPresent_def
      split: option.splits testfn.splits)

lemma only_user_test_batches:
  "user_batch plain_env (VNum 1) no_options (fst only_user_test) (snd only_user_test)
     = (None, [createValidation (with_message (cfg ''u'' False 1))])"
  "initialTests (schemas (snd only_user_test) (fst only_user_test)) = [typeError_validation] \<Longrightarrow>
   initial_batch plain_env (VNum 1) no_options (fst only_user_test) (snd only_user_test)
     = (None, [typeError_validation])"
  by (simp_all add: initial_batch_def user_batch_def runTests_def only_user_test_fields
      validate_run_only_user_test typeError_validation_def createValidation_def
      with_message_def cfg_def)

text \<open>
  \<^verbatim>\<open>mixed().oneOf([1, 2, 3]).notOneOf([2]).test('u', f1)\<close>: on the value 2 the
  whitelist test fails, validation ends with that failure after the type and whitelist
  tests, and the test u is not run; on the value 1 the three synthesized tests run, then
  the test u. \<^verbatim>\<open>mixed().test('u', f1)\<close> has no whitelist or blacklist test: on
  the value 1 the type-error test runs, then the test u.
\<close>

theorem validate_order_witness:
  "oneOf_validation \<in> set (initialTests (schemas (snd with_user_test) (fst with_user_test))) \<and>
   validate_run plain_env (VNum 2) no_options (fst with_user_test) (snd with_user_test)
     oneOf_validation \<noteq> None \<and>
   validate_abortEarly no_options (schemas (snd with_user_test) (fst with_user_test)) \<and>
   tests_of (snd with_user_test) (fst with_user_test)
     = [createValidation (with_message (cfg ''u'' False 1))] \<and>
   internal_validate plain_env (VNum 2) no_options (fst with_user_test) (snd with_user_test)
     = ((Some (ValidationError [failure_of oneOf_validation (VNum 2)]), VNum 2),
        [(Initial, typeError_validation), (Initial, oneOf_validation)]) \<and>
   (User, createValidation (with_message (cfg ''u'' False 1)))
     \<notin> set (snd (internal_validate plain_env (VNum 2) no_options (fst with_user_test)
                    (snd with_user_test))) \<and>
   fst (initial_batch plain_env (VNum 1) no_options (fst with_user_test) (snd with_user_test))
     = None \<and>
   snd (internal_validate plain_env (VNum 1) no_options (fst with_user_test) (snd with_user_test))
     = [(Initial, typeError_validation), (Initial, oneOf_validation),
        (Initial, notOneOf_validation),
        (User, createValidation (with_message (cfg ''u'' False 1)))] \<and>
   s_whitelistError (schemas (snd only_user_test) (fst only_user_test)) = None \<and>
   s_blacklistError (schemas (snd only_user_test) (fst only_user_test)) = None \<and>
   snd (internal_validate plain_env (VNum 1) no_options (fst only_user_test) (snd only_user_test))
     = [(Initial, typeError_validation),
        (User, createValidation (with_message (cfg ''u'' False 1)))]"
proof -
  let ?a = "fst with_user_test" and ?h = "snd with_user_test"
  let ?b = "fst only_user_test" and ?g = "snd only_user_test"
  have st: "o_strict no_options = None" by (simp add: no_options_def)
  have m: "oneOf_validation \<in> set (initialTests (schemas ?h ?a))"
    by (simp add: with_user_test_fields)
  have fl: "validate_run plain_env (VNum 2) no_options ?a ?h oneOf_validation \<noteq> None"
    by (simp add: validate_run_with_user_test[OF st] oneOf_validation_def createValidation_def)
  note two = validate_order[where e = plain_env and ?v0.0 = "VNum 2" and options = no_options
      and this = ?a and h = ?h]
  note one = validate_order[where e = plain_env and ?v0.0 = "VNum 1" and options = no_options
      and this = ?a and h = ?h]
  note only = validate_order[where e = plain_env and ?v0.0 = "VNum 1" and options = no_options
      and this = ?b and h = ?g]
  from m fl have ex: "\<exists>t\<in>set (initialTests (schemas ?h ?a)).
      validate_run plain_env (VNum 2) no_options ?a ?h t \<noteq> None" by blast
  from two ex have nouser:
    "(User, createValidation (with_message (cfg ''u'' False 1)))
       \<notin> set (snd (internal_validate plain_env (VNum 2) no_options ?a ?h))"
    by blast
  from two ex have e2: "fst (fst (internal_validate plain_env (VNum 2) no_options ?a ?h))
      = fst (initial_batch plain_env (VNum 2) no_options ?a ?h)"
    by blast
  from two have l2: "snd (internal_validate plain_env (VNum 2) no_options ?a ?h)
      = [(Initial, typeError_validation), (Initial, oneOf_validation)]"
    by (simp add: with_user_test_batches)
  have v2: "snd (fst (internal_validate plain_env (VNum 2) no_options ?a ?h)) = VNum 2"
    by (simp add: internal_validate_batches with_user_test_batches validate_value_def
        validate_strict_def internal_cast_def with_user_test_fields st spread_spec_def
        no_spec_options_def or_else_def)
  have iv2: "internal_validate plain_env (VNum 2) no_options ?a ?h
     = ((Some (ValidationError [failure_of oneOf_validation (VNum 2)]), VNum 2),
        [(Initial, typeError_validation), (Initial, oneOf_validation)])"
    using e2 l2 v2 by (simp add: with_user_test_batches prod_eq_iff)
  from one have l1: "snd (internal_validate plain_env (VNum 1) no_options ?a ?h)
     = [(Initial, typeError_validation), (Initial, oneOf_validation),
        (Initial, notOneOf_validation),
        (User, createValidation (with_message (cfg ''u'' False 1)))]"
    by (simp add: with_user_test_batches)
  from only have it: "initialTests (schemas ?g ?b) = [typeError_validation]"
    by (simp add: only_user_test_fields present_def List.map_filter_simps)
  from only have l3: "snd (internal_validate plain_env (VNum 1) no_options ?b ?g)
     = [(Initial, typeError_validation),
        (User, createValidation (with_message (cfg ''u'' False 1)))]"
    by (simp add: only_user_test_batches(1) only_user_test_batches(2)[OF it])
  from m fl with_user_test_abortEarly with_user_test_fields(5) iv2 nouser l1 l3 show ?thesis
    by (simp add: with_user_test_batches only_user_test_fields)
qed

end
